theory Spec2Isabelle
  imports Complex_Main
begin

section \<open>Exceptions\<close>

text \<open>
  The scripts raise and catch Python exceptions of the \<^verbatim>\<open>Exception\<close> hierarchy.
  An exception is a value carrying its message; \<^verbatim>\<open>str(exc)\<close> reads the message.
  \<^verbatim>\<open>RemoteError\<close> stands for whatever the hosted completion service raises
  (time-out, rate limit, authentication failure, ...).
\<close>

datatype exc =
    ValueError string
  | FileNotFoundError string
  | AttributeError string
  | TypeError string
  | EmptyDataError string
  | KeyError string
  | RemoteError string

fun str_exc :: "exc \<Rightarrow> string" where
  "str_exc (ValueError m) = m"
| "str_exc (FileNotFoundError m) = m"
| "str_exc (AttributeError m) = m"
| "str_exc (TypeError m) = m"
| "str_exc (EmptyDataError m) = m"
| "str_exc (KeyError m) = m"
| "str_exc (RemoteError m) = m"

section \<open>The retry wrapper (CAMEO-3.py, call\_with\_retries)\<close>

text \<open>
  \<^verbatim>\<open>
  MAX_RETRIES = 4
  RETRY_BACKOFF_SECONDS = 5

  def call_with_retries(fn, max_attempts=MAX_RETRIES):
      for attempt in range(1, max_attempts + 1):
          try:
              return fn()
          except Exception as exc:
              if attempt == max_attempts:
                  raise
              wait = RETRY_BACKOFF_SECONDS * attempt
              print(...)
              time.sleep(wait)
  \<close>
  A zero-argument operation is a state transformer: it acts on whatever it closes over
  (\<open>env\<close>) and either raises (\<open>Inl\<close>) or returns a value (\<open>Inr\<close>).
  The wrapper's own effects are recorded next to \<open>env\<close>: \<open>invoked\<close> counts the
  evaluations of \<^verbatim>\<open>fn()\<close> and \<open>slept\<close> lists the arguments of
  \<^verbatim>\<open>time.sleep\<close> in the order of the calls.
  A Python function whose loop body never runs falls off its end and returns
  \<^verbatim>\<open>None\<close>: the result is an option, \<open>None\<close> for that case.
\<close>

definition MAX_RETRIES :: int where
  "MAX_RETRIES = 4"

definition RETRY_BACKOFF_SECONDS :: int where
  "RETRY_BACKOFF_SECONDS = 5"

type_synonym ('s, 'a) operation = "'s \<Rightarrow> (exc + 'a) \<times> 's"

record 's retry_state =
  env :: 's
  invoked :: nat
  slept :: "int list"

fun retry_loop ::
  "('s, 'a) operation \<Rightarrow> int \<Rightarrow> int list \<Rightarrow> 's retry_state \<Rightarrow> (exc + 'a option) \<times> 's retry_state"
where
  "retry_loop fn max_attempts [] st = (Inr None, st)"
| "retry_loop fn max_attempts (attempt # rest) st =
     (case fn (env st) of
        (Inr v, s') \<Rightarrow> (Inr (Some v), st\<lparr>env := s', invoked := Suc (invoked st)\<rparr>)
      | (Inl e, s') \<Rightarrow>
          (if attempt = max_attempts
           then (Inl e, st\<lparr>env := s', invoked := Suc (invoked st)\<rparr>)
           else retry_loop fn max_attempts rest
                  (st\<lparr>env := s', invoked := Suc (invoked st),
                      slept := slept st @ [RETRY_BACKOFF_SECONDS * attempt]\<rparr>)))"

definition call_with_retries ::
  "('s, 'a) operation \<Rightarrow> int \<Rightarrow> 's retry_state \<Rightarrow> (exc + 'a option) \<times> 's retry_state"
where
  "call_with_retries fn max_attempts st = retry_loop fn max_attempts [1..max_attempts] st"

text \<open>A fresh wrapper state around an environment.\<close>

definition fresh :: "'s \<Rightarrow> 's retry_state" where
  "fresh s = \<lparr>env = s, invoked = 0, slept = []\<rparr>"

text \<open>Test doubles: an operation that raises at every call, and one that fails a given
  number of times before it succeeds (its state counts the calls so far).\<close>

definition always_raises :: "(nat, string) operation" where
  "always_raises n = (Inl (RemoteError ''boom''), Suc n)"

definition flaky :: "nat \<Rightarrow> (nat, string) operation" where
  "flaky k n = (if n < k then (Inl (RemoteError ''busy''), Suc n) else (Inr ''payload'', Suc n))"


text \<open>
  Auxiliary notions for stating what the wrapper does: the exception an operation raises
  in a given environment (if it raises), the environment after \<open>n\<close> successive
  invocations, and the wrapper's view of one invocation's outcome (a returned value
  \<open>v\<close> is handed on as \<open>Some v\<close>).
\<close>

definition raised :: "('s, 'a) operation \<Rightarrow> 's \<Rightarrow> exc option" where
  "raised fn s = (case fst (fn s) of Inl e \<Rightarrow> Some e | Inr v \<Rightarrow> None)"

primrec env_after :: "('s, 'a) operation \<Rightarrow> nat \<Rightarrow> 's \<Rightarrow> 's" where
  "env_after fn 0 s = s"
| "env_after fn (Suc n) s = env_after fn n (snd (fn s))"

definition outcome_of :: "exc + 'a \<Rightarrow> exc + 'a option" where
  "outcome_of r = (case r of Inl e \<Rightarrow> Inl e | Inr v \<Rightarrow> Inr (Some v))"

section \<open>Python values, input rows and strings\<close>

text \<open>
  What \<^verbatim>\<open>json.loads\<close> returns, and what the fields of an output record hold.
  A float is idealised as a real number (NaN and the infinities are left out); a dict is
  the list of its items, with distinct keys, as \<^verbatim>\<open>json.loads\<close> builds it.
\<close>

datatype pyval =
    PNone
  | PBool bool
  | PInt int
  | PFloat real
  | PStr string
  | PList "pyval list"
  | PDict "(string \<times> pyval) list"

fun type_name :: "pyval \<Rightarrow> string" where
  "type_name PNone = ''NoneType''"
| "type_name (PBool b) = ''bool''"
| "type_name (PInt n) = ''int''"
| "type_name (PFloat x) = ''float''"
| "type_name (PStr s) = ''str''"
| "type_name (PList xs) = ''list''"
| "type_name (PDict kvs) = ''dict''"

text \<open>Truth value of a Python object, as \<^verbatim>\<open>if not events\<close> tests it.\<close>

fun truthy :: "pyval \<Rightarrow> bool" where
  "truthy PNone = False"
| "truthy (PBool b) = b"
| "truthy (PInt n) = (n \<noteq> 0)"
| "truthy (PFloat x) = (x \<noteq> 0)"
| "truthy (PStr s) = (s \<noteq> [])"
| "truthy (PList xs) = (xs \<noteq> [])"
| "truthy (PDict kvs) = (kvs \<noteq> [])"

text \<open>\<^verbatim>\<open>d.get(key, default)\<close> on a dict.\<close>

definition dict_get :: "(string \<times> pyval) list \<Rightarrow> string \<Rightarrow> pyval \<Rightarrow> pyval" where
  "dict_get kvs k d = (case map_of kvs k of Some v \<Rightarrow> v | None \<Rightarrow> d)"

text \<open>The \<^verbatim>\<open>AttributeError\<close> of a method call on an object that has no such
  method, and \<^verbatim>\<open>x.get(key, default)\<close> on any object: only a dict has it.\<close>

definition no_attribute :: "string \<Rightarrow> string \<Rightarrow> exc" where
  "no_attribute ty name =
     AttributeError ([CHR 0x27] @ ty @ [CHR 0x27] @ '' object has no attribute ''
                       @ [CHR 0x27] @ name @ [CHR 0x27])"

fun py_get :: "pyval \<Rightarrow> string \<Rightarrow> pyval \<Rightarrow> exc + pyval" where
  "py_get (PDict kvs) k d = Inr (dict_get kvs k d)"
| "py_get v k d = Inl (no_attribute (type_name v) ''get'')"

text \<open>\<^verbatim>\<open>for ev in events\<close>: a list yields its elements, a string its characters, a
  dict its keys; nothing else that \<^verbatim>\<open>json.loads\<close> returns can be iterated.\<close>

fun py_iter :: "pyval \<Rightarrow> exc + pyval list" where
  "py_iter (PList xs) = Inr xs"
| "py_iter (PStr s) = Inr (map (\<lambda>c. PStr [c]) s)"
| "py_iter (PDict kvs) = Inr (map (\<lambda>kv. PStr (fst kv)) kvs)"
| "py_iter v =
     Inl (TypeError ([CHR 0x27] @ type_name v @ [CHR 0x27] @ '' object is not iterable''))"

text \<open>
  A row of the input table maps column names to cells. The table is what
  \<^verbatim>\<open>pd.read_csv\<close> made of the input file: a cell is a string, an integer, a
  boolean or a float, as pandas inferred the type of its column; an empty field of the
  file is the float NaN. A float other than NaN is carried as the text Python prints
  for it. \<^verbatim>\<open>str(cell)\<close> prints the cell: \<^verbatim>\<open>str(float('nan'))\<close> is
  \<^verbatim>\<open>'nan'\<close>. \<^verbatim>\<open>row.get(column, default)\<close> returns the default when the
  table has no such column.
\<close>

datatype cell =
    CNaN
  | CStr string
  | CInt int
  | CFloat string
  | CBool bool

function str_nat :: "nat \<Rightarrow> string" where
  "str_nat n =
     (if n < 10 then [char_of (48 + n)]
      else str_nat (n div 10) @ [char_of (48 + n mod 10)])"
  by pat_completeness auto
termination
  by (relation "measure id") auto

declare str_nat.simps [simp del]

definition str_int :: "int \<Rightarrow> string" where
  "str_int i = (if i < 0 then CHR 0x2D # str_nat (nat (- i)) else str_nat (nat i))"

fun str_cell :: "cell \<Rightarrow> string" where
  "str_cell CNaN = ''nan''"
| "str_cell (CStr s) = s"
| "str_cell (CInt i) = str_int i"
| "str_cell (CFloat repr) = repr"
| "str_cell (CBool b) = (if b then ''True'' else ''False'')"

type_synonym row = "(string \<times> cell) list"

definition row_get :: "row \<Rightarrow> string \<Rightarrow> cell \<Rightarrow> cell" where
  "row_get row col d = (case map_of row col of Some v \<Rightarrow> v | None \<Rightarrow> d)"

text \<open>
  \<^verbatim>\<open>str.strip()\<close>: leading and trailing whitespace removed. A character here is
  a code point below 256; the whitespace among these, as \<^verbatim>\<open>str.isspace\<close> has it,
  is U+0009 to U+000D, U+001C to U+001F, the space, U+0085 (next line) and U+00A0
  (no-break space).
\<close>

definition is_space :: "char \<Rightarrow> bool" where
  "is_space c = (c \<in> set [CHR 0x09, CHR 0x0A, CHR 0x0B, CHR 0x0C, CHR 0x0D,
                           CHR 0x1C, CHR 0x1D, CHR 0x1E, CHR 0x1F, CHR 0x20,
                           CHR 0x85, CHR 0xA0])"

definition strip :: "string \<Rightarrow> string" where
  "strip s = rev (dropWhile is_space (rev (dropWhile is_space s)))"

section \<open>The hosted service, the output file and the effects of a run\<close>

text \<open>
  A request to the completion service is the task (which fixed instruction text is sent)
  and the variable texts put into the prompt. The service is external: it is a parameter
  \<open>create\<close> acting on its own state \<open>'r\<close>, that raises or returns
  \<^verbatim>\<open>response.choices[0].message.content\<close>, a string or \<^verbatim>\<open>None\<close>.
  \<^verbatim>\<open>json.loads\<close> is a parameter too.
\<close>

datatype task = CameoEvents | Summary | Relevance

record request =
  task :: task
  texts :: "string list"

type_synonym 'r service = "request \<Rightarrow> 'r \<Rightarrow> (exc + string option) \<times> 'r"

type_synonym json_parser = "string \<Rightarrow> exc + pyval"

text \<open>
  A line of the output file is the header line or the line of one record. The file is
  absent (\<open>None\<close>) or the list of its lines. Every effect of a run is logged in order:
  a request sent to the service, the creation of the output file, a record appended to
  it, the file rewritten as a whole, an identifier added to
  \<^verbatim>\<open>processed_ids\<close>.
\<close>

datatype 'o csv_line = HeaderLine | RecordLine 'o

datatype 'o effect =
    Requested request
  | Created
  | Appended 'o
  | Rewritten "'o csv_line list"
  | Added string

record ('r, 'o) world =
  remote :: 'r
  out_file :: "'o csv_line list option"
  trace :: "'o effect list"

definition emit :: "'o effect \<Rightarrow> ('r, 'o) world \<Rightarrow> ('r, 'o) world" where
  "emit ev w = w\<lparr>trace := trace w @ [ev]\<rparr>"

text \<open>
  \<^verbatim>\<open>
  def run_chat_completion(messages, **kwargs):
      def api_call():
          response = client.chat.completions.create(model=..., messages=messages, **kwargs)
          return response.choices[0].message.content
      return call_with_retries(api_call)
  \<close>
\<close>

definition api_call :: "'r service \<Rightarrow> request \<Rightarrow> (('r, 'o) world, string option) operation" where
  "api_call create req w =
     (case create req (remote w) of
        (res, r') \<Rightarrow> (res, emit (Requested req) (w\<lparr>remote := r'\<rparr>)))"

definition run_chat_completion ::
  "'r service \<Rightarrow> request \<Rightarrow> ('r, 'o) world \<Rightarrow> (exc + string option) \<times> ('r, 'o) world"
where
  "run_chat_completion create req w =
     (case call_with_retries (api_call create req) MAX_RETRIES (fresh w) of
        (Inl e, st) \<Rightarrow> (Inl e, env st)
      | (Inr None, st) \<Rightarrow> (Inr None, env st)
      | (Inr (Some content), st) \<Rightarrow> (Inr content, env st))"

text \<open>\<^verbatim>\<open>json.loads(content)\<close>: a \<^verbatim>\<open>TypeError\<close> when the content is
  \<^verbatim>\<open>None\<close>.\<close>

definition json_loads :: "json_parser \<Rightarrow> string option \<Rightarrow> exc + pyval" where
  "json_loads loads content =
     (case content of
        None \<Rightarrow> Inl (TypeError ''the JSON object must be str, bytes or bytearray, not NoneType'')
      | Some s \<Rightarrow> loads s)"

section \<open>CAMEO-3.py: the classifier client\<close>

text \<open>
  \<^verbatim>\<open>
  def get_cameo_events_with_llm(text_content):
      try:
          content = run_chat_completion([...], response_format=..., ...)
          return json.loads(content)
      except Exception as exc:
          return {"events": [], "error": str(exc)}

  def get_summary_with_llm(text_content):
      try:
          out = run_chat_completion([...], temperature=0.3, max_tokens=250)
          return out.strip()
      except Exception as exc:
          return f"Error: {exc}"
  \<close>
  Like every Python call, each of the two either raises or returns: the result is a sum.
\<close>

definition error_result :: "exc \<Rightarrow> pyval" where
  "error_result e = PDict [(''events'', PList []), (''error'', PStr (str_exc e))]"

definition get_cameo_events_with_llm ::
  "'r service \<Rightarrow> json_parser \<Rightarrow> string \<Rightarrow> ('r, 'o) world \<Rightarrow> (exc + pyval) \<times> ('r, 'o) world"
where
  "get_cameo_events_with_llm create loads text_content w =
     (case run_chat_completion create \<lparr>task = CameoEvents, texts = [text_content]\<rparr> w of
        (Inl e, w') \<Rightarrow> (Inr (error_result e), w')
      | (Inr content, w') \<Rightarrow>
          (case json_loads loads content of
             Inl e \<Rightarrow> (Inr (error_result e), w')
           | Inr v \<Rightarrow> (Inr v, w')))"

definition error_summary :: "exc \<Rightarrow> string" where
  "error_summary e = ''Error: '' @ str_exc e"

definition get_summary_with_llm ::
  "'r service \<Rightarrow> string \<Rightarrow> ('r, 'o) world \<Rightarrow> (exc + string) \<times> ('r, 'o) world"
where
  "get_summary_with_llm create text_content w =
     (case run_chat_completion create \<lparr>task = Summary, texts = [text_content]\<rparr> w of
        (Inl e, w') \<Rightarrow> (Inr (error_summary e), w')
      | (Inr None, w') \<Rightarrow>
          (Inr (error_summary (no_attribute ''NoneType'' ''strip'')), w')
      | (Inr (Some out), w') \<Rightarrow> (Inr (strip out), w'))"

section \<open>CAMEO-3.py: the output records and the resumable sink\<close>

text \<open>The columns of the output table (\<^verbatim>\<open>OUTPUT_COLUMNS\<close>). The identifier
  and the summary are strings; source, date and title hold the cells of the input row as
  they are; the event fields hold whatever the reply holds.\<close>

record news_fields =
  NewsID :: string
  Source :: cell
  Date :: cell
  Title :: cell
  summary :: string

record out_record = news_fields +
  event_order :: pyval
  source_actor :: pyval
  target_actor :: pyval
  cameo_top_level :: pyval
  cameo_code :: pyval
  event_description :: pyval
  evidence :: pyval
  confidence :: pyval

definition CONTENT_COLUMN :: string where
  "CONTENT_COLUMN = ''Content''"

definition NEWS_ID_COLUMN :: string where
  "NEWS_ID_COLUMN = ''NewsID''"

text \<open>The record of a row without events, and the record of one event \<open>ev\<close>. The
  first \<^verbatim>\<open>ev.get\<close> raises when \<open>ev\<close> is not a dict, before anything is written.\<close>

definition blank_record :: "row \<Rightarrow> string \<Rightarrow> string \<Rightarrow> out_record" where
  "blank_record row news_id summ =
     \<lparr>NewsID = news_id,
      Source = row_get row ''NewsSource'' (CStr ''''),
      Date = row_get row ''EventDate'' (CStr ''''),
      Title = row_get row ''Source'' (CStr ''''),
      summary = summ,
      event_order = PStr '''',
      source_actor = PStr '''',
      target_actor = PStr '''',
      cameo_top_level = PStr '''',
      cameo_code = PStr '''',
      event_description = PStr '''',
      evidence = PStr '''',
      confidence = PStr ''''\<rparr>"

fun event_record :: "row \<Rightarrow> string \<Rightarrow> string \<Rightarrow> pyval \<Rightarrow> exc + out_record" where
  "event_record row news_id summ (PDict ev) =
     Inr \<lparr>NewsID = news_id,
          Source = row_get row ''NewsSource'' (CStr ''''),
          Date = row_get row ''EventDate'' (CStr ''''),
          Title = row_get row ''Source'' (CStr ''''),
          summary = summ,
          event_order = dict_get ev ''event_order'' (PInt 1),
          source_actor = dict_get ev ''source_actor'' (PStr ''''),
          target_actor = dict_get ev ''target_actor'' (PStr ''''),
          cameo_top_level = dict_get ev ''cameo_top_level'' (PStr ''''),
          cameo_code = dict_get ev ''cameo_code'' (PStr ''''),
          event_description = dict_get ev ''event_description'' (PStr ''''),
          evidence = dict_get ev ''evidence'' (PStr ''''),
          confidence = dict_get ev ''confidence'' (PStr '''')\<rparr>"
| "event_record row news_id summ v = Inl (no_attribute (type_name v) ''get'')"

text \<open>
  \<^verbatim>\<open>
  def ensure_output_csv():
      if not OUTPUT_CSV_PATH.exists():
          pd.DataFrame(columns=OUTPUT_COLUMNS).to_csv(OUTPUT_CSV_PATH, index=False, ...)

  def load_existing_results():
      if OUTPUT_CSV_PATH.exists():
          return pd.read_csv(OUTPUT_CSV_PATH, encoding="utf-8-sig")
      return pd.DataFrame(columns=OUTPUT_COLUMNS)

  def append_record(record):
      pd.DataFrame([record], columns=OUTPUT_COLUMNS).to_csv(
          OUTPUT_CSV_PATH, mode="a", header=not OUTPUT_CSV_PATH.exists(), index=False, ...)
  \<close>
  A data frame read from a file is the line that names its columns and the lines
  under it; reading a file without any line raises.
\<close>

definition ensure_output_csv :: "('r, 'o) world \<Rightarrow> ('r, 'o) world" where
  "ensure_output_csv w =
     (if out_file w = None then emit Created (w\<lparr>out_file := Some [HeaderLine]\<rparr>) else w)"

type_synonym 'o frame = "'o csv_line \<times> 'o csv_line list"

definition read_csv :: "'o csv_line list \<Rightarrow> exc + 'o frame" where
  "read_csv ls =
     (case ls of
        [] \<Rightarrow> Inl (EmptyDataError ''No columns to parse from file'')
      | h # rest \<Rightarrow> Inr (h, rest))"

definition load_existing_results :: "('r, 'o) world \<Rightarrow> exc + 'o frame" where
  "load_existing_results w =
     (case out_file w of
        Some ls \<Rightarrow> read_csv ls
      | None \<Rightarrow> Inr (HeaderLine, []))"

definition append_record :: "'o \<Rightarrow> ('r, 'o) world \<Rightarrow> ('r, 'o) world" where
  "append_record record w =
     emit (Appended record)
       (w\<lparr>out_file :=
            Some ((case out_file w of None \<Rightarrow> [HeaderLine] | Some ls \<Rightarrow> ls)
                    @ [RecordLine record])\<rparr>)"

text \<open>
  \<^verbatim>\<open>processed_ids = set(df_existing.get("NewsID", []).astype(str))\<close>.
  The frame has a \<^verbatim>\<open>NewsID\<close> column when its columns are named by the header
  line; a header line met further down is then a row whose \<^verbatim>\<open>NewsID\<close> field is
  the text \<^verbatim>\<open>NewsID\<close>. When the first line of the file is a record, the frame's
  columns are named by that record's values: \<^verbatim>\<open>get\<close> returns the default
  \<^verbatim>\<open>[]\<close>, and a list has no \<^verbatim>\<open>astype\<close>.

  What the set holds is not the texts that were written. \<^verbatim>\<open>pd.read_csv\<close> infers
  the type of the column from all of its fields, and \<^verbatim>\<open>astype(str)\<close> prints each
  cell according to that type: in a column of digit strings \<^verbatim>\<open>007\<close> is the
  integer 7 and is printed \<^verbatim>\<open>7\<close>, an empty field is NaN and is printed
  \<^verbatim>\<open>nan\<close>. Both belong to pandas, so they are a parameter \<open>read_as\<close>: given
  the written texts of the column, the text that a field is read back as.
\<close>

type_synonym column_reader = "string list \<Rightarrow> string \<Rightarrow> string"

text \<open>The text that a line of the file holds in the \<^verbatim>\<open>NewsID\<close> column.\<close>

definition written_id :: "'z news_fields_scheme csv_line \<Rightarrow> string" where
  "written_id l = (case l of HeaderLine \<Rightarrow> ''NewsID'' | RecordLine r \<Rightarrow> NewsID r)"

definition astype_str :: "column_reader \<Rightarrow> string list \<Rightarrow> string list" where
  "astype_str read_as column = map (read_as column) column"

definition processed_ids_of ::
  "column_reader \<Rightarrow> 'z news_fields_scheme frame \<Rightarrow> exc + string set"
where
  "processed_ids_of read_as df =
     (case df of
        (HeaderLine, rest) \<Rightarrow> Inr (set (astype_str read_as (map written_id rest)))
      | (RecordLine r, rest) \<Rightarrow>
          Inl (no_attribute ''list'' ''astype''))"

section \<open>CAMEO-3.py: main\<close>

text \<open>
  \<^verbatim>\<open>
  for ev in events:
      record = {"NewsID": news_id, ..., "event_order": ev.get("event_order", 1), ...}
      append_record(record)
  \<close>
\<close>

fun write_events ::
  "row \<Rightarrow> string \<Rightarrow> string \<Rightarrow> pyval list \<Rightarrow> ('r, out_record) world
     \<Rightarrow> (exc + unit) \<times> ('r, out_record) world"
where
  "write_events row news_id summ [] w = (Inr (), w)"
| "write_events row news_id summ (ev # evs) w =
     (case event_record row news_id summ ev of
        Inl e \<Rightarrow> (Inl e, w)
      | Inr record \<Rightarrow> write_events row news_id summ evs (append_record record w))"

text \<open>
  The body of the loop over the input rows, for one row, with \<^verbatim>\<open>processed_ids\<close>
  passed along:
  \<^verbatim>\<open>
  content = str(row.get(CONTENT_COLUMN, "")).strip()
  news_id = str(row.get(NEWS_ID_COLUMN, "")).strip()
  if not content:
      continue
  if news_id in processed_ids:
      continue
  cameo_data = get_cameo_events_with_llm(content)
  summary = get_summary_with_llm(content)
  events = cameo_data.get("events", [])
  if not events:
      record = {...blank...}
      append_record(record)
  else:
      for ev in events: ...
  processed_ids.add(news_id)
  \<close>
\<close>

definition loop_body ::
  "'r service \<Rightarrow> json_parser \<Rightarrow> row \<Rightarrow> string set \<Rightarrow> ('r, out_record) world
     \<Rightarrow> (exc + unit) \<times> string set \<times> ('r, out_record) world"
where
  "loop_body create loads row processed_ids w =
     (let content = strip (str_cell (row_get row CONTENT_COLUMN (CStr '''')));
          news_id = strip (str_cell (row_get row NEWS_ID_COLUMN (CStr '''')))
      in if content = [] then (Inr (), processed_ids, w)
         else if news_id \<in> processed_ids then (Inr (), processed_ids, w)
         else
           (case get_cameo_events_with_llm create loads content w of
              (Inl e, w1) \<Rightarrow> (Inl e, processed_ids, w1)
            | (Inr cameo_data, w1) \<Rightarrow>
           (case get_summary_with_llm create content w1 of
              (Inl e, w2) \<Rightarrow> (Inl e, processed_ids, w2)
            | (Inr summ, w2) \<Rightarrow>
           (case py_get cameo_data ''events'' (PList []) of
              Inl e \<Rightarrow> (Inl e, processed_ids, w2)
            | Inr events \<Rightarrow>
                if \<not> truthy events
                then (Inr (), insert news_id processed_ids,
                      emit (Added news_id) (append_record (blank_record row news_id summ) w2))
                else
                  (case py_iter events of
                     Inl e \<Rightarrow> (Inl e, processed_ids, w2)
                   | Inr evs \<Rightarrow>
                       (case write_events row news_id summ evs w2 of
                          (Inl e, w3) \<Rightarrow> (Inl e, processed_ids, w3)
                        | (Inr u, w3) \<Rightarrow>
                            (Inr (), insert news_id processed_ids,
                             emit (Added news_id) w3)))))))"

fun main_loop ::
  "'r service \<Rightarrow> json_parser \<Rightarrow> row list \<Rightarrow> string set \<Rightarrow> ('r, out_record) world
     \<Rightarrow> (exc + unit) \<times> string set \<times> ('r, out_record) world"
where
  "main_loop create loads [] processed_ids w = (Inr (), processed_ids, w)"
| "main_loop create loads (row # rows) processed_ids w =
     (case loop_body create loads row processed_ids w of
        (Inl e, processed_ids', w') \<Rightarrow> (Inl e, processed_ids', w')
      | (Inr u, processed_ids', w') \<Rightarrow> main_loop create loads rows processed_ids' w')"

text \<open>
  \<^verbatim>\<open>
  def main():
      if not DATA_CSV_PATH.exists():
          raise FileNotFoundError(f"Missing CSV: {DATA_CSV_PATH}")
      df_input = pd.read_csv(DATA_CSV_PATH, encoding="utf-8")
      ensure_output_csv()
      df_existing = load_existing_results()
      processed_ids = set(df_existing.get("NewsID", []).astype(str))
      for idx, row in df_input.iterrows(): ...
  \<close>
  The input file is absent (\<open>None\<close>) or the list of the rows of the frame read from
  it.
\<close>

definition main ::
  "'r service \<Rightarrow> json_parser \<Rightarrow> column_reader \<Rightarrow> row list option
     \<Rightarrow> ('r, out_record) world \<Rightarrow> (exc + unit) \<times> ('r, out_record) world"
where
  "main create loads read_as data_csv w =
     (case data_csv of
        None \<Rightarrow> (Inl (FileNotFoundError ''Missing CSV: Dunya_Tur2.csv''), w)
      | Some df_input \<Rightarrow>
          (let w1 = ensure_output_csv w
           in case load_existing_results w1 of
                Inl e \<Rightarrow> (Inl e, w1)
              | Inr df_existing \<Rightarrow>
                  (case processed_ids_of read_as df_existing of
                     Inl e \<Rightarrow> (Inl e, w1)
                   | Inr processed_ids \<Rightarrow>
                       (case main_loop create loads df_input processed_ids w1 of
                          (res, processed_ids', w') \<Rightarrow> (res, w')))))"

text \<open>
  The script as a whole: the module first reads the credential,
  \<^verbatim>\<open>
  OPENAI_API_KEY = os.environ.get("OPENAI_API_KEY")
  if not OPENAI_API_KEY:
      raise ValueError("OPENAI_API_KEY environment variable missing.")
  \<close>
  and \<^verbatim>\<open>main()\<close> runs only after that. The environment variable is unset
  (\<open>None\<close>) or a string.
\<close>

definition script ::
  "string option \<Rightarrow> 'r service \<Rightarrow> json_parser \<Rightarrow> column_reader \<Rightarrow> row list option
     \<Rightarrow> ('r, out_record) world \<Rightarrow> (exc + unit) \<times> ('r, out_record) world"
where
  "script api_key create loads read_as data_csv w =
     (if api_key = None \<or> api_key = Some []
      then (Inl (ValueError ''OPENAI_API_KEY environment variable missing.''), w)
      else main create loads read_as data_csv w)"

section \<open>Notions for stating the properties of a run\<close>

text \<open>The two values the loop computes from a row.\<close>

definition content_of :: "row \<Rightarrow> string" where
  "content_of row = strip (str_cell (row_get row CONTENT_COLUMN (CStr '''')))"

definition news_id_of :: "row \<Rightarrow> string" where
  "news_id_of row = strip (str_cell (row_get row NEWS_ID_COLUMN (CStr '''')))"

text \<open>The rows of the input that are not skipped, given the identifiers processed so
  far: those with content whose identifier is new, each identifier once.\<close>

fun to_process :: "string set \<Rightarrow> row list \<Rightarrow> row list" where
  "to_process P [] = []"
| "to_process P (row # rows) =
     (if content_of row = [] \<or> news_id_of row \<in> P then to_process P rows
      else row # to_process (insert (news_id_of row) P) rows)"

text \<open>What a logged effect does to the output file, and the file after a sequence of
  effects. A process that is terminated has performed a prefix of the effects of the
  full run; the file it leaves is the file after that prefix.\<close>

fun apply_effect :: "'o csv_line list option \<Rightarrow> 'o effect \<Rightarrow> 'o csv_line list option" where
  "apply_effect f (Requested req) = f"
| "apply_effect f Created = Some [HeaderLine]"
| "apply_effect f (Appended r) =
     Some ((case f of None \<Rightarrow> [HeaderLine] | Some ls \<Rightarrow> ls) @ [RecordLine r])"
| "apply_effect f (Rewritten ls) = Some ls"
| "apply_effect f (Added i) = f"

definition file_after :: "'o effect list \<Rightarrow> 'o csv_line list option \<Rightarrow> 'o csv_line list option" where
  "file_after effs f = foldl apply_effect f effs"

text \<open>The effects a run added to the log.\<close>

definition new_effects :: "('r, 'o) world \<Rightarrow> ('r, 'o) world \<Rightarrow> 'o effect list" where
  "new_effects w w' = drop (length (trace w)) (trace w')"

text \<open>Projections of a sequence of effects: the requests sent, the records appended,
  the identifiers added to \<^verbatim>\<open>processed_ids\<close>.\<close>

fun requested :: "'o effect list \<Rightarrow> request list" where
  "requested [] = []"
| "requested (Requested req # es) = req # requested es"
| "requested (e # es) = requested es"

fun appended :: "'o effect list \<Rightarrow> 'o list" where
  "appended [] = []"
| "appended (Appended r # es) = r # appended es"
| "appended (e # es) = appended es"

fun added :: "'o effect list \<Rightarrow> string list" where
  "added [] = []"
| "added (Added i # es) = i # added es"
| "added (e # es) = added es"

text \<open>The identifiers a run started on the file \<open>f\<close> takes as processed: the
  \<^verbatim>\<open>NewsID\<close> column of the lines under the first one, as \<open>read_as\<close> reads it back
  (no identifier when the file is absent or empty).\<close>

definition ids_in_file ::
  "column_reader \<Rightarrow> 'z news_fields_scheme csv_line list option \<Rightarrow> string set"
where
  "ids_in_file read_as f =
     (case f of
        None \<Rightarrow> {}
      | Some ls \<Rightarrow> set (astype_str read_as (map written_id (tl ls))))"

text \<open>The lines of the file that hold a record.\<close>

fun is_record_line :: "'o csv_line \<Rightarrow> bool" where
  "is_record_line HeaderLine = False"
| "is_record_line (RecordLine r) = True"

text \<open>The number of header lines in the file.\<close>

definition header_count :: "'o csv_line list option \<Rightarrow> nat" where
  "header_count f = (case f of None \<Rightarrow> 0 | Some ls \<Rightarrow> length (filter (\<lambda>l. \<not> is_record_line l) ls))"

text \<open>The record written for a row whose classification failed: no event fields, and
  the text of the error in the summary.\<close>

definition is_error_sentinel :: "row \<Rightarrow> out_record \<Rightarrow> bool" where
  "is_error_sentinel row r =
     (r = blank_record row (news_id_of row) (summary r) \<and> take 7 (summary r) = ''Error: '')"

text \<open>A service that raises at every request.\<close>

definition always_fails :: "'r service \<Rightarrow> bool" where
  "always_fails create = (\<forall>req r. \<exists>e r'. create req r = (Inl e, r'))"

definition down :: "nat service" where
  "down req n = (Inl (RemoteError ''503''), Suc n)"

text \<open>The discipline of the log: no record is appended for an identifier that is
  already finished (the set \<open>fin\<close>, as \<^verbatim>\<open>processed_ids\<close> holds it), and an
  identifier is finished only after a record of it has been appended (the set \<open>beg\<close>).\<close>

fun ordered :: "string set \<Rightarrow> string set \<Rightarrow> 'z news_fields_scheme effect list \<Rightarrow> bool" where
  "ordered fin beg [] = True"
| "ordered fin beg (Appended r # es) =
     (NewsID r \<notin> fin \<and> ordered fin (insert (NewsID r) beg) es)"
| "ordered fin beg (Added i # es) =
     (i \<in> beg \<and> ordered (insert i fin) beg es)"
| "ordered fin beg (e # es) = ordered fin beg es"

text \<open>The effects of one iteration that is not skipped: requests, then the records of
  the row, then (when \<open>fin\<close>) the identifier added to \<^verbatim>\<open>processed_ids\<close>.\<close>

definition block :: "string \<Rightarrow> bool \<Rightarrow> out_record effect list \<Rightarrow> bool" where
  "block i fin new =
     (\<exists>reqs recs. new = map Requested reqs @ map Appended recs @ (if fin then [Added i] else [])
        \<and> (\<forall>r\<in>set recs. NewsID r = i) \<and> (fin \<longrightarrow> recs \<noteq> []))"

text \<open>The effects that replace the output file as a whole.\<close>

fun is_file_reset :: "'o effect \<Rightarrow> bool" where
  "is_file_reset Created = True"
| "is_file_reset (Rewritten ls) = True"
| "is_file_reset e = False"

text \<open>Several runs of \<^verbatim>\<open>main\<close>, one after the other, on the given inputs.\<close>

fun runs ::
  "'r service \<Rightarrow> json_parser \<Rightarrow> column_reader \<Rightarrow> row list option list
     \<Rightarrow> ('r, out_record) world \<Rightarrow> ('r, out_record) world"
where
  "runs create loads read_as [] w = w"
| "runs create loads read_as (data_csv # later) w =
     runs create loads read_as later (snd (main create loads read_as data_csv w))"

text \<open>
  A test double for the reading of the \<^verbatim>\<open>NewsID\<close> column, for the columns used
  in the examples: a column of digit strings is a column of integers, printed without
  leading zeros; in any other column an empty field is printed \<^verbatim>\<open>nan\<close> and a
  text that is no number is read back as it was written.
\<close>

definition is_digit :: "char \<Rightarrow> bool" where
  "is_digit c = (c \<in> set ''0123456789'')"

definition sample_reader :: column_reader where
  "sample_reader column t =
     (if list_all (\<lambda>s. s \<noteq> [] \<and> list_all is_digit s) column
      then (case dropWhile (\<lambda>c. c = CHR ''0'') t of [] \<Rightarrow> ''0'' | ds \<Rightarrow> ds)
      else if t = [] then ''nan'' else t)"

text \<open>Test doubles: a service that answers every request at once (an event reply that
  depends on the text, a summary otherwise), and a parser that knows the two replies.\<close>

definition toy_service :: "unit service" where
  "toy_service req u =
     (Inr (Some (if task req = Summary then '' a summary ''
                 else if texts req = [''quiet day''] then ''none'' else ''two'')), u)"

definition toy_loads :: json_parser where
  "toy_loads s =
     (if s = ''none'' then Inr (PDict [(''events'', PList [])])
      else if s = ''two'' then
        Inr (PDict [(''events'',
               PList [PDict [(''event_order'', PInt 1), (''cameo_code'', PStr ''042'')],
                      PDict [(''event_order'', PInt 2), (''cameo_code'', PStr ''112'')]])])
      else Inl (ValueError ''Expecting value''))"

definition row_A :: row where
  "row_A = [(''NewsID'', CStr ''A''), (''Content'', CStr ''quiet day''),
            (''NewsSource'', CStr ''Dunya'')]"

definition row_B :: row where
  "row_B = [(''NewsID'', CStr ''B''), (''Content'', CStr ''talks and protest''),
            (''NewsSource'', CStr ''Dunya''), (''EventDate'', CStr ''2010-06-01'')]"

definition empty_world :: "(unit, out_record) world" where
  "empty_world = \<lparr>remote = (), out_file = None, trace = []\<rparr>"

definition rec_A :: out_record where
  "rec_A = blank_record row_A ''A'' ''a summary''"

definition world_A :: "(unit, out_record) world" where
  "world_A = \<lparr>remote = (), out_file = Some [HeaderLine, RecordLine rec_A], trace = []\<rparr>"

definition first_start :: "(nat, out_record) world" where
  "first_start = \<lparr>remote = 0, out_file = None, trace = []\<rparr>"

text \<open>A row whose content is only whitespace, and a row of a table without a content
  column.\<close>

definition row_blank :: row where
  "row_blank = [(''NewsID'', CStr ''C''), (''Content'', CStr ''   '')]"

definition row_no_content :: row where
  "row_no_content = [(''NewsID'', CStr ''D'')]"

text \<open>The output file left by a process that is terminated after the first \<open>k\<close>
  effects of the run that leads from \<open>w\<close> to \<open>w'\<close>.\<close>

definition crash_file ::
  "('r, 'o) world \<Rightarrow> ('r, 'o) world \<Rightarrow> nat \<Rightarrow> 'o csv_line list option"
where
  "crash_file w w' k = file_after (take k (new_effects w w')) (out_file w)"

text \<open>The two records of \<open>row_B\<close> under the toy service.\<close>

definition rec_B1 :: out_record where
  "rec_B1 = \<lparr>NewsID = ''B'', Source = CStr ''Dunya'', Date = CStr ''2010-06-01'', Title = CStr '''',
             summary = ''a summary'', event_order = PInt 1, source_actor = PStr '''',
             target_actor = PStr '''', cameo_top_level = PStr '''', cameo_code = PStr ''042'',
             event_description = PStr '''', evidence = PStr '''', confidence = PStr ''''\<rparr>"

definition rec_B2 :: out_record where
  "rec_B2 = \<lparr>NewsID = ''B'', Source = CStr ''Dunya'', Date = CStr ''2010-06-01'', Title = CStr '''',
             summary = ''a summary'', event_order = PInt 2, source_actor = PStr '''',
             target_actor = PStr '''', cameo_top_level = PStr '''', cameo_code = PStr ''112'',
             event_description = PStr '''', evidence = PStr '''', confidence = PStr ''''\<rparr>"

definition half_written :: "(unit, out_record) world" where
  "half_written = \<lparr>remote = (), out_file = Some [HeaderLine, RecordLine rec_B1], trace = []\<rparr>"

text \<open>A row whose content field was empty in the input file, and a row whose
  identifier is a digit string with leading zeros (a string in the frame, as in a table
  that also holds identifiers that are no numbers).\<close>

definition row_nan :: row where
  "row_nan = [(''NewsID'', CStr ''E''), (''Content'', CNaN)]"

definition row_007 :: row where
  "row_007 = [(''NewsID'', CStr ''007''), (''Content'', CStr ''quiet day'')]"

definition rec_007 :: out_record where
  "rec_007 = blank_record row_007 ''007'' ''a summary''"

definition world_007 :: "(unit, out_record) world" where
  "world_007 = \<lparr>remote = (), out_file = Some [HeaderLine, RecordLine rec_007], trace = []\<rparr>"

text \<open>The identifiers that were written to the file \<open>f\<close> (the texts of its
  \<^verbatim>\<open>NewsID\<close> column under the first line), and the files whose column is read
  back as it was written.\<close>

definition written_ids :: "'z news_fields_scheme csv_line list option \<Rightarrow> string set" where
  "written_ids f = (case f of None \<Rightarrow> {} | Some ls \<Rightarrow> set (map written_id (tl ls)))"

definition read_back_exact ::
  "column_reader \<Rightarrow> 'z news_fields_scheme csv_line list option \<Rightarrow> bool"
where
  "read_back_exact read_as f =
     (case f of
        None \<Rightarrow> True
      | Some ls \<Rightarrow> astype_str read_as (map written_id (tl ls)) = map written_id (tl ls))"

section \<open>Filter-3.2.py\<close>

text \<open>
  \<^verbatim>\<open>
  def check_cameo_relevance(title, content):
      user_prompt = f"... Title: {title} Content: {content[:15000]} ..."
      try:
          response = client.chat.completions.create(model=..., messages=[...], ...)
          result = json.loads(response.choices[0].message.content)
          return result.get("is_relevant", False), result.get("reason", "No reason provided")
      except Exception as e:
          return False, f"LLM Error: {str(e)}"
  \<close>
  This script calls the service directly, once, without the retry wrapper.
\<close>

record filter_record =
  F_NewsID :: cell
  F_Date :: cell
  F_Title :: string
  Is_Relevant :: pyval
  Reason_English :: pyval
  Content_Snippet :: string

definition llm_error :: "exc \<Rightarrow> pyval \<times> pyval" where
  "llm_error e = (PBool False, PStr (''LLM Error: '' @ str_exc e))"

definition check_cameo_relevance ::
  "'r service \<Rightarrow> json_parser \<Rightarrow> string \<Rightarrow> string \<Rightarrow> ('r, 'o) world
     \<Rightarrow> (exc + pyval \<times> pyval) \<times> ('r, 'o) world"
where
  "check_cameo_relevance create loads title content w =
     (case api_call create \<lparr>task = Relevance, texts = [title, take 15000 content]\<rparr> w of
        (Inl e, w') \<Rightarrow> (Inr (llm_error e), w')
      | (Inr c, w') \<Rightarrow>
          (case json_loads loads c of
             Inl e \<Rightarrow> (Inr (llm_error e), w')
           | Inr result \<Rightarrow>
               (case py_get result ''is_relevant'' (PBool False) of
                  Inl e \<Rightarrow> (Inr (llm_error e), w')
                | Inr is_relevant \<Rightarrow>
                    (case py_get result ''reason'' (PStr ''No reason provided'') of
                       Inl e \<Rightarrow> (Inr (llm_error e), w')
                     | Inr reason \<Rightarrow> (Inr (is_relevant, reason), w')))))"

text \<open>
  \<^verbatim>\<open>
  def main():
      if not DATA_CSV_PATH.exists():
          print(f"File not found: {DATA_CSV_PATH}")
          return
      df = pd.read_csv(DATA_CSV_PATH, ...)
      df = df.fillna("")
      df.columns = df.columns.str.strip()
      results = []
      for index, row in tqdm(df.iterrows(), total=len(df)):
          title = str(row.get('Title', ''))
          content = str(row.get('Content', ''))
          is_relevant, reason = check_cameo_relevance(title, content)
          results.append({"NewsID": row.get('NewsID', index), "Date": row.get('Date', ''),
                          "Title": title, "Is_Relevant": is_relevant,
                          "Reason_English": reason, "Content_Snippet": content[:150]})
      results_df = pd.DataFrame(results)
      results_df.to_csv(OUTPUT_CSV_PATH, index=False, encoding="utf-8-sig")
      ...
      print(f"Total Relevant Events: {results_df['Is_Relevant'].sum()}")
  \<close>
  There is no set of processed identifiers and the output file is not read: every row
  is classified, and the file is written anew from the results of this run. A frame
  built from no result has no column, so the lookup of \<^verbatim>\<open>Is_Relevant\<close> after the
  write raises. \<^verbatim>\<open>fillna("")\<close> puts the empty string in the place of every
  NaN.
\<close>

definition fillna :: "row \<Rightarrow> row" where
  "fillna row = map (\<lambda>kv. (fst kv, if snd kv = CNaN then CStr '''' else snd kv)) row"

definition strip_columns :: "row \<Rightarrow> row" where
  "strip_columns row = map (\<lambda>kv. (strip (fst kv), snd kv)) row"

fun filter32_loop ::
  "'r service \<Rightarrow> json_parser \<Rightarrow> int \<Rightarrow> row list \<Rightarrow> filter_record list
     \<Rightarrow> ('r, filter_record) world \<Rightarrow> (exc + filter_record list) \<times> ('r, filter_record) world"
where
  "filter32_loop create loads index [] results w = (Inr results, w)"
| "filter32_loop create loads index (row # rows) results w =
     (let title = str_cell (row_get row ''Title'' (CStr ''''));
          content = str_cell (row_get row ''Content'' (CStr ''''))
      in case check_cameo_relevance create loads title content w of
           (Inl e, w') \<Rightarrow> (Inl e, w')
         | (Inr (is_relevant, reason), w') \<Rightarrow>
             filter32_loop create loads (index + 1) rows
               (results @
                  [\<lparr>F_NewsID = row_get row ''NewsID'' (CInt index),
                    F_Date = row_get row ''Date'' (CStr ''''),
                    F_Title = title,
                    Is_Relevant = is_relevant,
                    Reason_English = reason,
                    Content_Snippet = take 150 content\<rparr>]) w')"

definition filter32_main ::
  "'r service \<Rightarrow> json_parser \<Rightarrow> row list option \<Rightarrow> ('r, filter_record) world
     \<Rightarrow> (exc + unit) \<times> ('r, filter_record) world"
where
  "filter32_main create loads data_csv w =
     (case data_csv of
        None \<Rightarrow> (Inr (), w)
      | Some df \<Rightarrow>
          (case filter32_loop create loads 0 (map (strip_columns \<circ> fillna) df) [] w of
             (Inl e, w') \<Rightarrow> (Inl e, w')
           | (Inr results, w') \<Rightarrow>
               (let ls = (if results = [] then [] else HeaderLine # map RecordLine results);
                    w'' = emit (Rewritten ls) (w'\<lparr>out_file := Some ls\<rparr>)
                in if results = [] then (Inl (KeyError ''Is_Relevant''), w'')
                   else (Inr (), w''))))"

text \<open>The request that the loop sends for a row of the frame.\<close>

definition relevance_request :: "row \<Rightarrow> request" where
  "relevance_request row =
     \<lparr>task = Relevance,
      texts = [str_cell (row_get row ''Title'' (CStr '''')),
               take 15000 (str_cell (row_get row ''Content'' (CStr '''')))]\<rparr>"

text \<open>A file left by an earlier run of the script, holding a verdict for the
  identifier \<open>A\<close>.\<close>

definition rec_F :: filter_record where
  "rec_F = \<lparr>F_NewsID = CStr ''A'', F_Date = CStr '''', F_Title = '''', Is_Relevant = PBool True,
            Reason_English = PStr ''Verbal Conflict'', Content_Snippet = ''quiet day''\<rparr>"

definition world_F :: "(nat, filter_record) world" where
  "world_F = \<lparr>remote = 0, out_file = Some [HeaderLine, RecordLine rec_F], trace = []\<rparr>"


section \<open>Properties of the retry wrapper\<close>

lemma retry_loop_invoked_le:
  "invoked (snd (retry_loop fn m atts st)) \<le> invoked st + length atts"
proof (induction atts arbitrary: st)
  case Nil
  show ?case by simp
next
  case (Cons a atts)
  obtain r s' where f: "fn (env st) = (r, s')" by (cases "fn (env st)")
  let ?st' = "st\<lparr>env := s', invoked := Suc (invoked st),
                   slept := slept st @ [RETRY_BACKOFF_SECONDS * a]\<rparr>"
  have ih: "invoked (snd (retry_loop fn m atts ?st')) \<le> invoked ?st' + length atts"
    by (rule Cons.IH)
  show ?case using f ih by (cases r) auto
qed

text \<open>When each of the invocations that the loop over the attempts \<open>k, ..., m\<close> makes
  raises, the loop runs them all, sleeps after each but the last, and ends in the
  \<^verbatim>\<open>raise\<close> of attempt \<open>m\<close>.\<close>

lemma retry_loop_all_fail:
  "k \<le> m \<Longrightarrow> n = nat (m - k) \<Longrightarrow>
   \<forall>j\<le>n. \<exists>e. raised fn (env_after fn j (env st)) = Some e \<Longrightarrow>
     retry_loop fn m [k..m] st =
       (Inl (the (raised fn (env_after fn n (env st)))),
        st\<lparr>env := env_after fn (Suc n) (env st),
           invoked := invoked st + Suc n,
           slept := slept st @ map (\<lambda>a. RETRY_BACKOFF_SECONDS * a) [k..m - 1]\<rparr>)"
proof (induction n arbitrary: k st)
  case 0
  then have km: "k = m" by simp
  from "0.prems"(3) obtain e where "raised fn (env st) = Some e" by auto
  then obtain s' where f: "fn (env st) = (Inl e, s')"
    by (cases "fn (env st)") (auto simp: raised_def split: sum.splits)
  show ?case using f km by (simp add: upto_rec1[of m m] raised_def)
next
  case (Suc n)
  then have lt: "k < m" and n: "n = nat (m - (k + 1))" and le: "k + 1 \<le> m" by auto
  from Suc.prems(3) have "\<exists>e. raised fn (env_after fn 0 (env st)) = Some e" by blast
  then obtain e where "raised fn (env st) = Some e" by auto
  then obtain s' where f: "fn (env st) = (Inl e, s')"
    by (cases "fn (env st)") (auto simp: raised_def split: sum.splits)
  let ?st' = "st\<lparr>env := s', invoked := Suc (invoked st),
                   slept := slept st @ [RETRY_BACKOFF_SECONDS * k]\<rparr>"
  have rest: "\<forall>j\<le>n. \<exists>e. raised fn (env_after fn j (env ?st')) = Some e"
  proof (intro allI impI)
    fix j assume "j \<le> n"
    then have "Suc j \<le> Suc n" by simp
    with Suc.prems(3) have "\<exists>e. raised fn (env_after fn (Suc j) (env st)) = Some e" by blast
    with f show "\<exists>e. raised fn (env_after fn j (env ?st')) = Some e" by simp
  qed
  have up: "[k..m] = k # [k + 1..m]" using lt by (simp add: upto_rec1)
  have up2: "[k..m - 1] = k # [k + 1..m - 1]" using lt by (simp add: upto_rec1)
  show ?case
    using f lt Suc.IH[OF le n rest]
    by (simp add: up up2)
qed

text \<open>When the list of attempts is not empty and ends in \<open>max_attempts\<close>, the loop
  cannot fall through: what it hands to the caller is the outcome of one invocation, the
  last one it made.\<close>

lemma retry_loop_last_outcome:
  "atts \<noteq> [] \<Longrightarrow> last atts = m \<Longrightarrow>
     \<exists>s. fst (retry_loop fn m atts st) = outcome_of (fst (fn s)) \<and>
         env (snd (retry_loop fn m atts st)) = snd (fn s)"
proof (induction atts arbitrary: st)
  case Nil
  then show ?case by simp
next
  case (Cons a atts)
  obtain r s' where f: "fn (env st) = (r, s')" by (cases "fn (env st)")
  show ?case
  proof (cases r)
    case (Inr v)
    with f have "fst (retry_loop fn m (a # atts) st) = outcome_of (fst (fn (env st))) \<and>
         env (snd (retry_loop fn m (a # atts) st)) = snd (fn (env st))"
      by (simp add: outcome_of_def)
    then show ?thesis by blast
  next
    case (Inl e)
    show ?thesis
    proof (cases "a = m")
      case True
      with f Inl have "fst (retry_loop fn m (a # atts) st) = outcome_of (fst (fn (env st))) \<and>
         env (snd (retry_loop fn m (a # atts) st)) = snd (fn (env st))"
        by (simp add: outcome_of_def)
      then show ?thesis by blast
    next
      case False
      with Cons.prems have ne: "atts \<noteq> []" and la: "last atts = m" by (auto split: if_splits)
      let ?st' = "st\<lparr>env := s', invoked := Suc (invoked st),
                   slept := slept st @ [RETRY_BACKOFF_SECONDS * a]\<rparr>"
      from Cons.IH[OF ne la, of ?st'] obtain s where
        "fst (retry_loop fn m atts ?st') = outcome_of (fst (fn s)) \<and>
         env (snd (retry_loop fn m atts ?st')) = snd (fn s)" by blast
      with f Inl False show ?thesis by auto
    qed
  qed
qed

lemma upto_last: "(1::int) \<le> m \<Longrightarrow> [1..m] \<noteq> [] \<and> last [1..m] = m"
  by (simp add: upto_rec2)

lemma flaky_env_after: "env_after (flaky k) j n = n + j"
  by (induction j arbitrary: n) (simp_all add: flaky_def)

text \<open>
  Claim C2, as amended. The wrapper evaluates \<^verbatim>\<open>fn()\<close> at most
  \<open>max_attempts\<close> times (not at all when \<open>max_attempts\<close> is zero or negative).
  When \<open>max_attempts\<close> is at least 1 and every invocation that the wrapper makes
  raises (the first \<open>max_attempts\<close> invocations of the operation, starting from the
  environment the wrapper is called in; what the operation would do after them does not
  matter), the wrapper invokes the operation exactly \<open>max_attempts\<close> times, sleeps
  \<open>RETRY_BACKOFF_SECONDS * attempt\<close> after each attempt but the last, and raises to
  its caller the exception of the last attempt.
\<close>

theorem call_with_retries_attempts_bounded:
  "invoked (snd (call_with_retries fn max_attempts st)) \<le> invoked st + nat max_attempts \<and>
   (1 \<le> max_attempts \<and>
    (\<forall>j<nat max_attempts. \<exists>e. raised fn (env_after fn j (env st)) = Some e) \<longrightarrow>
      (\<exists>e. raised fn (env_after fn (nat max_attempts - 1) (env st)) = Some e \<and>
           call_with_retries fn max_attempts st =
             (Inl e, st\<lparr>env := env_after fn (nat max_attempts) (env st),
                        invoked := invoked st + nat max_attempts,
                        slept := slept st @
                           map (\<lambda>a. RETRY_BACKOFF_SECONDS * a) [1..max_attempts - 1]\<rparr>)))"
proof (intro conjI impI)
  have "invoked (snd (retry_loop fn max_attempts [1..max_attempts] st))
          \<le> invoked st + length [1..max_attempts]"
    by (rule retry_loop_invoked_le)
  then show "invoked (snd (call_with_retries fn max_attempts st)) \<le> invoked st + nat max_attempts"
    by (simp add: call_with_retries_def)
next
  assume a: "1 \<le> max_attempts \<and>
    (\<forall>j<nat max_attempts. \<exists>e. raised fn (env_after fn j (env st)) = Some e)"
  then have le: "1 \<le> max_attempts"
    and made: "\<forall>j<nat max_attempts. \<exists>e. raised fn (env_after fn j (env st)) = Some e" by auto
  let ?n = "nat (max_attempts - 1)"
  have n: "Suc ?n = nat max_attempts" "?n = nat max_attempts - 1" using le by auto
  from made n have all: "\<forall>j\<le>?n. \<exists>e. raised fn (env_after fn j (env st)) = Some e"
    by (metis le_imp_less_Suc)
  then obtain e where e: "raised fn (env_after fn ?n (env st)) = Some e" by blast
  have "retry_loop fn max_attempts [1..max_attempts] st =
       (Inl (the (raised fn (env_after fn ?n (env st)))),
        st\<lparr>env := env_after fn (Suc ?n) (env st),
           invoked := invoked st + Suc ?n,
           slept := slept st @ map (\<lambda>a. RETRY_BACKOFF_SECONDS * a) [1..max_attempts - 1]\<rparr>)"
    by (rule retry_loop_all_fail[OF le refl all])
  with e n show "\<exists>e. raised fn (env_after fn (nat max_attempts - 1) (env st)) = Some e \<and>
           call_with_retries fn max_attempts st =
             (Inl e, st\<lparr>env := env_after fn (nat max_attempts) (env st),
                        invoked := invoked st + nat max_attempts,
                        slept := slept st @
                           map (\<lambda>a. RETRY_BACKOFF_SECONDS * a) [1..max_attempts - 1]\<rparr>)"
    by (simp add: call_with_retries_def)
qed

text \<open>With the default budget of four attempts, an operation that raises at its first
  four invocations (and would succeed at the fifth) is invoked four times, with sleeps
  of 5, 10 and 15 seconds, and its exception reaches the caller.\<close>

theorem call_with_retries_attempts_bounded_witness:
  "call_with_retries (flaky 4) 4 (fresh 0) =
     (Inl (RemoteError ''busy''), \<lparr>env = 4, invoked = 4, slept = [5, 10, 15]\<rparr>)"
proof -
  have made: "\<forall>j<nat 4. \<exists>e. raised (flaky 4) (env_after (flaky 4) j (env (fresh 0))) = Some e"
    by (simp add: flaky_env_after raised_def flaky_def fresh_def)
  have last: "raised (flaky 4) (env_after (flaky 4) (nat 4 - 1) (env (fresh 0)))
                = Some (RemoteError ''busy'')"
    by (simp add: flaky_env_after raised_def flaky_def fresh_def)
  from call_with_retries_attempts_bounded [of "flaky 4" 4 "fresh 0"] made last
  show ?thesis
    by (simp add: flaky_env_after fresh_def RETRY_BACKOFF_SECONDS_def upto_rec1)
qed

text \<open>Claim C2 as it was stated fails for \<open>max_attempts = 0\<close>: the operation raises
  whenever it is invoked, yet the wrapper raises nothing: it returns \<^verbatim>\<open>None\<close>
  without an invocation.\<close>

theorem call_with_retries_zero_attempts_no_raise:
  "fst (call_with_retries always_raises 0 (fresh 0)) = Inr None \<and>
   invoked (snd (call_with_retries always_raises 0 (fresh 0))) = 0"
  by (simp add: call_with_retries_def fresh_def)

text \<open>
  Claim C3. An operation that raises at its first and at its second invocation and
  returns \<open>v\<close> at its third, wrapped with an attempt budget that allows a third
  invocation (the default \<open>MAX_RETRIES = 4\<close> does), is invoked three times; the wrapper
  sleeps exactly twice, \<open>RETRY_BACKOFF_SECONDS * 1\<close> then
  \<open>RETRY_BACKOFF_SECONDS * 2\<close>, and returns \<open>v\<close>.
\<close>

theorem call_with_retries_third_success:
  assumes "fn s0 = (Inl e1, s1)" and "fn s1 = (Inl e2, s2)" and "fn s2 = (Inr v, s3)"
    and "3 \<le> max_attempts"
  shows "call_with_retries fn max_attempts (fresh s0) =
           (Inr (Some v),
            \<lparr>env = s3, invoked = 3,
             slept = [RETRY_BACKOFF_SECONDS * 1, RETRY_BACKOFF_SECONDS * 2]\<rparr>)"
proof -
  have u: "[1..max_attempts] = 1 # 2 # 3 # [4..max_attempts]"
    using assms(4) by (simp add: upto_rec1)
  show ?thesis
    using assms by (simp add: call_with_retries_def u fresh_def numeral_3_eq_3)
qed

theorem call_with_retries_third_success_witness:
  "call_with_retries (flaky 2) MAX_RETRIES (fresh 0) =
     (Inr (Some ''payload''), \<lparr>env = 3, invoked = 3, slept = [5, 10]\<rparr>)"
  using call_with_retries_third_success
    [of "flaky 2" 0 "RemoteError ''busy''" 1 "RemoteError ''busy''" 2 "''payload''" 3 MAX_RETRIES]
  by (simp add: flaky_def MAX_RETRIES_def RETRY_BACKOFF_SECONDS_def)

text \<open>
  Claim C10. Called with \<open>max_attempts < 1\<close>, the wrapper returns \<^verbatim>\<open>None\<close>
  and leaves everything as it was: no invocation, no sleep, no exception. Called with
  \<open>max_attempts \<ge> 1\<close>, what reaches the caller is the outcome of an invocation of the
  operation (the last one made): the value it returned, or the exception it raised.
\<close>

theorem call_with_retries_precondition:
  "(max_attempts < 1 \<longrightarrow> call_with_retries fn max_attempts st = (Inr None, st)) \<and>
   (1 \<le> max_attempts \<longrightarrow>
      (\<exists>s. fst (call_with_retries fn max_attempts st) = outcome_of (fst (fn s)) \<and>
           env (snd (call_with_retries fn max_attempts st)) = snd (fn s)))"
proof (intro conjI impI)
  assume "max_attempts < 1"
  then show "call_with_retries fn max_attempts st = (Inr None, st)"
    by (simp add: call_with_retries_def)
next
  assume "1 \<le> max_attempts"
  then have "[1..max_attempts] \<noteq> [] \<and> last [1..max_attempts] = max_attempts"
    by (rule upto_last)
  then show "\<exists>s. fst (call_with_retries fn max_attempts st) = outcome_of (fst (fn s)) \<and>
           env (snd (call_with_retries fn max_attempts st)) = snd (fn s)"
    unfolding call_with_retries_def using retry_loop_last_outcome by blast
qed

theorem call_with_retries_precondition_witness:
  "call_with_retries (flaky 1) 0 (fresh 0) = (Inr None, fresh 0) \<and>
   (\<exists>s. fst (call_with_retries (flaky 1) 4 (fresh 0)) = outcome_of (fst (flaky 1 s)) \<and>
        env (snd (call_with_retries (flaky 1) 4 (fresh 0))) = snd (flaky 1 s))"
  using call_with_retries_precondition [of 0 "flaky 1" "fresh 0"]
    call_with_retries_precondition [of 4 "flaky 1" "fresh 0"]
  by simp


section \<open>The client and the sink: what they change\<close>

text \<open>A call of the service leaves the output file alone and logs its request; so does
  a call through the retry wrapper, which sends the request at least once.\<close>

lemma emit_simps [simp]:
  "out_file (emit ev w) = out_file w"
  "trace (emit ev w) = trace w @ [ev]"
  "remote (emit ev w) = remote w"
  by (simp_all add: emit_def)

lemma api_call_frame:
  "api_call create req w = (res, w') \<Longrightarrow>
     out_file w' = out_file w \<and> trace w' = trace w @ [Requested req]"
  by (auto simp: api_call_def split: prod.splits)

lemma retry_loop_api_call:
  "retry_loop (api_call create req) m atts st = (res, st') \<Longrightarrow>
     out_file (env st') = out_file (env st) \<and>
     (\<exists>n. trace (env st') = trace (env st) @ replicate n (Requested req) \<and>
          (atts \<noteq> [] \<longrightarrow> 0 < n))"
proof (induction atts arbitrary: st)
  case Nil
  then show ?case by auto
next
  case (Cons a atts)
  obtain r w1 where f: "api_call create req (env st) = (r, w1)"
    by (cases "api_call create req (env st)")
  from api_call_frame[OF f] have fr: "out_file w1 = out_file (env st)"
    "trace w1 = trace (env st) @ [Requested req]" by auto
  show ?case
  proof (cases "\<exists>e. r = Inl e \<and> a \<noteq> m")
    case False
    with Cons.prems f have "env st' = w1"
      by (cases r) (auto split: if_splits)
    with fr have "out_file (env st') = out_file (env st) \<and>
       trace (env st') = trace (env st) @ replicate 1 (Requested req)" by simp
    then show ?thesis by blast
  next
    case True
    then obtain e where r: "r = Inl e" and ne: "a \<noteq> m" by blast
    let ?st1 = "st\<lparr>env := w1, invoked := Suc (invoked st),
                    slept := slept st @ [RETRY_BACKOFF_SECONDS * a]\<rparr>"
    from Cons.prems f r ne have "retry_loop (api_call create req) m atts ?st1 = (res, st')"
      by simp
    from Cons.IH[OF this] obtain n where
      "out_file (env st') = out_file w1" "trace (env st') = trace w1 @ replicate n (Requested req)"
      by auto
    with fr have "out_file (env st') = out_file (env st) \<and>
       trace (env st') = trace (env st) @ replicate (Suc n) (Requested req)"
      by (simp add: replicate_append_same)
    then show ?thesis by blast
  qed
qed

lemma run_chat_completion_frame:
  assumes "run_chat_completion create req w = (res, w')"
  shows "out_file w' = out_file w \<and>
         (\<exists>n. 0 < n \<and> trace w' = trace w @ replicate n (Requested req))"
proof -
  obtain r st where c: "call_with_retries (api_call create req) MAX_RETRIES (fresh w) = (r, st)"
    by (cases "call_with_retries (api_call create req) MAX_RETRIES (fresh w)")
  have ne: "[1..MAX_RETRIES] \<noteq> []" by (simp add: MAX_RETRIES_def upto_rec1)
  from c have "retry_loop (api_call create req) MAX_RETRIES [1..MAX_RETRIES] (fresh w) = (r, st)"
    by (simp add: call_with_retries_def)
  from retry_loop_api_call[OF this] ne obtain n where
    n: "out_file (env st) = out_file w" "trace (env st) = trace w @ replicate n (Requested req)" "0 < n"
    by (auto simp: fresh_def)
  from assms c have "w' = env st"
    by (auto simp: run_chat_completion_def split: sum.splits option.splits)
  with n show ?thesis by blast
qed

lemma get_cameo_events_frame:
  assumes "get_cameo_events_with_llm create loads t w = (res, w')"
  shows "(\<exists>v. res = Inr v) \<and> out_file w' = out_file w \<and>
         (\<exists>n. 0 < n \<and> trace w' = trace w @ replicate n (Requested \<lparr>task = CameoEvents, texts = [t]\<rparr>))"
proof -
  obtain r w1 where c: "run_chat_completion create \<lparr>task = CameoEvents, texts = [t]\<rparr> w = (r, w1)"
    by (cases "run_chat_completion create \<lparr>task = CameoEvents, texts = [t]\<rparr> w")
  from assms c have "w' = w1" "\<exists>v. res = Inr v"
    by (auto simp: get_cameo_events_with_llm_def split: sum.splits intro: sym)
  with run_chat_completion_frame[OF c] show ?thesis by simp
qed

lemma get_summary_frame:
  assumes "get_summary_with_llm create t w = (res, w')"
  shows "(\<exists>v. res = Inr v) \<and> out_file w' = out_file w \<and>
         (\<exists>n. 0 < n \<and> trace w' = trace w @ replicate n (Requested \<lparr>task = Summary, texts = [t]\<rparr>))"
proof -
  obtain r w1 where c: "run_chat_completion create \<lparr>task = Summary, texts = [t]\<rparr> w = (r, w1)"
    by (cases "run_chat_completion create \<lparr>task = Summary, texts = [t]\<rparr> w")
  from assms c have "w' = w1" "\<exists>v. res = Inr v"
    by (auto simp: get_summary_with_llm_def split: sum.splits option.splits)
  with run_chat_completion_frame[OF c] show ?thesis by simp
qed

lemma file_after_simps [simp]:
  "file_after [] f = f"
  "file_after (e # es) f = file_after es (apply_effect f e)"
  "file_after (xs @ ys) f = file_after ys (file_after xs f)"
  by (simp_all add: file_after_def)

lemma file_after_requests [simp]: "file_after (replicate n (Requested r)) f = f"
  by (induction n) simp_all

lemma appended_append [simp]: "appended (xs @ ys) = appended xs @ appended ys"
  by (induction xs rule: appended.induct) simp_all

lemma added_append [simp]: "added (xs @ ys) = added xs @ added ys"
  by (induction xs rule: added.induct) simp_all

lemma requested_append [simp]: "requested (xs @ ys) = requested xs @ requested ys"
  by (induction xs rule: requested.induct) simp_all

lemma projections_requests [simp]:
  "appended (replicate n (Requested r)) = []"
  "added (replicate n (Requested r)) = []"
  "requested (replicate n (Requested r)) = replicate n r"
  by (induction n) simp_all

lemma projections_appends [simp]:
  "appended (map Appended rs) = rs"
  "added (map Appended rs) = []"
  "requested (map Appended rs) = []"
  by (induction rs) simp_all

lemma append_record_simps [simp]:
  "trace (append_record r w) = trace w @ [Appended r]"
  "out_file (append_record r w) = apply_effect (out_file w) (Appended r)"
  "remote (append_record r w) = remote w"
  by (simp_all add: append_record_def)

lemma event_record_id: "event_record row i s ev = Inr r \<Longrightarrow> NewsID r = i"
  by (cases ev) auto

lemma write_events_effects:
  "write_events row i s evs w = (res, w') \<Longrightarrow>
     \<exists>recs. trace w' = trace w @ map Appended recs \<and>
            out_file w' = file_after (map Appended recs) (out_file w) \<and>
            (\<forall>r\<in>set recs. NewsID r = i) \<and>
            (res = Inr () \<longrightarrow> length recs = length evs)"
proof (induction evs arbitrary: w)
  case Nil
  then have "w' = w" by simp
  then have "trace w' = trace w @ map Appended [] \<and>
            out_file w' = file_after (map Appended []) (out_file w) \<and>
            (\<forall>r\<in>set ([]::out_record list). NewsID r = i) \<and> (res = Inr () \<longrightarrow> length ([]::out_record list) = length ([]::pyval list))" by simp
  then show ?case by blast
next
  case (Cons ev evs)
  show ?case
  proof (cases "event_record row i s ev")
    case (Inl e)
    with Cons.prems have "w' = w" "res = Inl e" by auto
    then have "trace w' = trace w @ map Appended [] \<and>
            out_file w' = file_after (map Appended []) (out_file w) \<and>
            (\<forall>r\<in>set ([]::out_record list). NewsID r = i) \<and> (res = Inr () \<longrightarrow> length ([]::out_record list) = length (ev # evs))" by simp
    then show ?thesis by blast
  next
    case (Inr r)
    with Cons.prems have "write_events row i s evs (append_record r w) = (res, w')" by simp
    from Cons.IH[OF this] obtain recs where
      h: "trace w' = trace (append_record r w) @ map Appended recs"
         "out_file w' = file_after (map Appended recs) (out_file (append_record r w))"
         "\<forall>r\<in>set recs. NewsID r = i" "res = Inr () \<longrightarrow> length recs = length evs" by blast
    have "trace w' = trace w @ map Appended (r # recs) \<and>
            out_file w' = file_after (map Appended (r # recs)) (out_file w) \<and>
            (\<forall>r\<in>set (r # recs). NewsID r = i) \<and> (res = Inr () \<longrightarrow> length (r # recs) = length (ev # evs))"
      using h event_record_id[OF Inr] by simp
    then show ?thesis by blast
  qed
qed


section \<open>One iteration of the loop\<close>

lemma loop_body_skip:
  "content_of row = [] \<or> news_id_of row \<in> P \<Longrightarrow> loop_body create loads row P w = (Inr (), P, w)"
  by (auto simp: loop_body_def content_of_def news_id_of_def Let_def)

lemma truthy_iter_nonempty: "truthy v \<Longrightarrow> py_iter v = Inr evs \<Longrightarrow> evs \<noteq> []"
  by (cases v) auto

lemma blockI:
  "new = map Requested reqs @ map Appended recs @ (if fin then [Added i] else []) \<Longrightarrow>
   \<forall>r\<in>set recs. NewsID r = i \<Longrightarrow> (fin \<longrightarrow> recs \<noteq> []) \<Longrightarrow> block i fin new"
  unfolding block_def by blast

lemma loop_body_effects:
  assumes lb: "loop_body create loads row P w = (res, P', w')"
    and go: "content_of row \<noteq> []" "news_id_of row \<notin> P"
  shows "\<exists>new fin. trace w' = trace w @ new \<and> out_file w' = file_after new (out_file w) \<and>
            block (news_id_of row) fin new \<and>
            P' = (if fin then insert (news_id_of row) P else P) \<and> (fin \<longrightarrow> res = Inr ())"
proof -
  let ?c = "content_of row" and ?i = "news_id_of row"
  obtain r1 w1 where c1: "get_cameo_events_with_llm create loads ?c w = (r1, w1)"
    by (cases "get_cameo_events_with_llm create loads ?c w")
  from get_cameo_events_frame[OF c1] obtain cameo_data n1 where
    r1: "r1 = Inr cameo_data" and f1: "out_file w1 = out_file w"
    and t1: "trace w1 = trace w @ replicate n1 (Requested \<lparr>task = CameoEvents, texts = [?c]\<rparr>)"
    by blast
  obtain r2 w2 where c2: "get_summary_with_llm create ?c w1 = (r2, w2)"
    by (cases "get_summary_with_llm create ?c w1")
  from get_summary_frame[OF c2] obtain summ n2 where
    r2: "r2 = Inr summ" and f2: "out_file w2 = out_file w1"
    and t2: "trace w2 = trace w1 @ replicate n2 (Requested \<lparr>task = Summary, texts = [?c]\<rparr>)"
    by blast
  let ?reqs = "replicate n1 \<lparr>task = CameoEvents, texts = [?c]\<rparr> @ replicate n2 \<lparr>task = Summary, texts = [?c]\<rparr>"
  have t12: "trace w2 = trace w @ map Requested ?reqs" using t1 t2 by simp
  have f12: "out_file w2 = out_file w" using f1 f2 by simp
  have fa: "file_after (map Requested ?reqs) f = f" for f :: "out_record csv_line list option"
    by simp
  note unf = loop_body_def Let_def content_of_def[symmetric] news_id_of_def[symmetric]
  show ?thesis
  proof (cases "py_get cameo_data ''events'' (PList [])")
    case (Inl e)
    with lb go c1 c2 r1 r2 have "w' = w2" "P' = P" by (auto simp: unf)
    with t12 f12 have "trace w' = trace w @ (map Requested ?reqs @ map Appended [] @ []) \<and>
        out_file w' = file_after (map Requested ?reqs @ map Appended [] @ []) (out_file w)"
      by simp
    then show ?thesis
      using \<open>P' = P\<close> blockI[of _ ?reqs "[]" False ?i] by (intro exI[of _ "map Requested ?reqs @ map Appended [] @ []"] exI[of _ False]) simp
  next
    case (Inr events)
    show ?thesis
    proof (cases "truthy events")
      case False
      let ?rec = "blank_record row ?i summ"
      from lb go c1 c2 r1 r2 Inr False
      have e: "w' = emit (Added ?i) (append_record ?rec w2)" "P' = insert ?i P" "res = Inr ()"
        by (auto simp: unf)
      let ?new = "map Requested ?reqs @ map Appended [?rec] @ [Added ?i]"
      have "trace w' = trace w @ ?new" using e t12 by simp
      moreover have "out_file w' = file_after ?new (out_file w)" using e f12 by simp
      moreover have "block ?i True ?new"
        by (rule blockI[of _ ?reqs "[?rec]"]) (simp_all add: blank_record_def)
      ultimately show ?thesis using e by (intro exI[of _ ?new] exI[of _ True]) simp
    next
      case True
      show ?thesis
      proof (cases "py_iter events")
        case (Inl e)
        with lb go c1 c2 r1 r2 Inr True have "w' = w2" "P' = P" by (auto simp: unf)
        with t12 f12 have "trace w' = trace w @ (map Requested ?reqs @ map Appended [] @ []) \<and>
            out_file w' = file_after (map Requested ?reqs @ map Appended [] @ []) (out_file w)"
          by simp
        then show ?thesis
          using \<open>P' = P\<close> blockI[of _ ?reqs "[]" False ?i]
          by (intro exI[of _ "map Requested ?reqs @ map Appended [] @ []"] exI[of _ False]) simp
      next
        case evs: (Inr evs)
        obtain r3 w3 where c3: "write_events row ?i summ evs w2 = (r3, w3)"
          by (cases "write_events row ?i summ evs w2")
        from write_events_effects[OF c3] obtain recs where
          t3: "trace w3 = trace w2 @ map Appended recs"
          and f3: "out_file w3 = file_after (map Appended recs) (out_file w2)"
          and ids: "\<forall>r\<in>set recs. NewsID r = ?i"
          and len: "r3 = Inr () \<longrightarrow> length recs = length evs" by blast
        have ne: "evs \<noteq> []" using truthy_iter_nonempty[OF True evs] .
        show ?thesis
        proof (cases r3)
          case (Inl e)
          with lb go c1 c2 r1 r2 Inr True evs c3 have e: "w' = w3" "P' = P" by (auto simp: unf)
          let ?new = "map Requested ?reqs @ map Appended recs @ []"
          have "trace w' = trace w @ ?new" using e t3 t12 by simp
          moreover have "out_file w' = file_after ?new (out_file w)" using e f3 f12 by simp
          moreover have "block ?i False ?new"
            by (rule blockI[of _ ?reqs recs]) (use ids in simp_all)
          ultimately show ?thesis using e by (intro exI[of _ ?new] exI[of _ False]) simp
        next
          case (Inr u)
          with lb go c1 c2 r1 r2 \<open>py_get cameo_data ''events'' (PList []) = Inr events\<close> True evs c3
          have e: "w' = emit (Added ?i) w3" "P' = insert ?i P" "res = Inr ()" by (auto simp: unf)
          let ?new = "map Requested ?reqs @ map Appended recs @ [Added ?i]"
          have rn: "recs \<noteq> []" using len Inr ne by auto
          have "trace w' = trace w @ ?new" using e t3 t12 by simp
          moreover have "out_file w' = file_after ?new (out_file w)" using e f3 f12 by simp
          moreover have "block ?i True ?new"
            by (rule blockI[of _ ?reqs recs]) (use ids rn in simp_all)
          ultimately show ?thesis using e by (intro exI[of _ ?new] exI[of _ True]) simp
        qed
      qed
    qed
  qed
qed


section \<open>The loop over the rows\<close>

lemma ordered_append:
  "ordered fin beg (xs @ ys) =
     (ordered fin beg xs \<and>
      ordered (fin \<union> set (added xs)) (beg \<union> NewsID ` set (appended xs)) ys)"
proof (induction fin beg xs rule: ordered.induct)
  case (2 fin beg r es)
  have "insert (NewsID r) beg \<union> NewsID ` set (appended es) =
        beg \<union> NewsID ` set (appended (Appended r # es))" by auto
  with 2 show ?case by auto
next
  case (3 fin beg i es)
  have "insert i fin \<union> set (added es) = fin \<union> set (added (Added i # es))" by auto
  with 3 show ?case by auto
qed auto

lemma ordered_mono:
  "ordered fin beg xs \<Longrightarrow> beg \<subseteq> beg' \<Longrightarrow> ordered fin beg' xs"
proof (induction fin beg xs arbitrary: beg' rule: ordered.induct)
  case (2 fin beg r es)
  then have "ordered fin (insert (NewsID r) beg') es" by (auto intro: "2.IH")
  with 2 show ?case by auto
next
  case (3 fin beg i es)
  then show ?case by auto
qed auto

lemma ordered_requests [simp]: "ordered fin beg (map Requested reqs @ es) = ordered fin beg es"
  by (induction reqs) simp_all

lemma block_ordered:
  assumes "block i fin new" and "i \<notin> P"
  shows "ordered P beg new"
proof -
  from assms(1) obtain reqs recs where
    new: "new = map Requested reqs @ map Appended recs @ (if fin then [Added i] else [])"
    and ids: "\<forall>r\<in>set recs. NewsID r = i" and ne: "fin \<longrightarrow> recs \<noteq> []"
    unfolding block_def by blast
  have "ordered P beg' (map Appended recs @ (if fin then [Added i] else []))"
    if "fin \<longrightarrow> recs \<noteq> [] \<or> i \<in> beg'" for beg'
    using ids that
  proof (induction recs arbitrary: beg')
    case Nil
    then show ?case by auto
  next
    case (Cons r recs)
    then have "ordered P (insert (NewsID r) beg') (map Appended recs @ (if fin then [Added i] else []))"
      by (intro Cons.IH) auto
    with Cons.prems assms(2) show ?case by auto
  qed
  with ne new show ?thesis by simp
qed

lemma block_projections:
  assumes "block i fin new"
  shows "added new = (if fin then [i] else [])" and "list_all (\<lambda>e. \<not> is_file_reset e) new"
    and "\<forall>r\<in>set (appended new). NewsID r = i"
proof -
  from assms obtain reqs recs where
    new: "new = map Requested reqs @ map Appended recs @ (if fin then [Added i] else [])"
    and ids: "\<forall>r\<in>set recs. NewsID r = i"
    unfolding block_def by blast
  have [simp]: "added (map Requested reqs) = []" "appended (map Requested reqs) = []"
    by (induction reqs) simp_all
  show "added new = (if fin then [i] else [])" using new by simp
  show "list_all (\<lambda>e. \<not> is_file_reset e) new" using new by (auto simp: list_all_iff)
  show "\<forall>r\<in>set (appended new). NewsID r = i" using new ids by simp
qed

lemma main_loop_effects:
  "main_loop create loads rows P w = (res, P', w') \<Longrightarrow>
     \<exists>new. trace w' = trace w @ new \<and> out_file w' = file_after new (out_file w) \<and>
           ordered P {} new \<and> P' = P \<union> set (added new) \<and>
           list_all (\<lambda>e. \<not> is_file_reset e) new"
proof (induction rows arbitrary: P w)
  case Nil
  then have "trace w' = trace w @ [] \<and> out_file w' = file_after [] (out_file w) \<and>
           ordered P {} [] \<and> P' = P \<union> set (added ([]::out_record effect list)) \<and>
           list_all (\<lambda>e. \<not> is_file_reset e) ([]::out_record effect list)" by simp
  then show ?case by blast
next
  case (Cons row rows)
  obtain r1 P1 w1 where lb: "loop_body create loads row P w = (r1, P1, w1)"
    by (cases "loop_body create loads row P w") auto
  have "\<exists>new1. trace w1 = trace w @ new1 \<and> out_file w1 = file_after new1 (out_file w) \<and>
           ordered P {} new1 \<and> P1 = P \<union> set (added new1) \<and>
           list_all (\<lambda>e. \<not> is_file_reset e) new1"
  proof (cases "content_of row = [] \<or> news_id_of row \<in> P")
    case True
    from loop_body_skip[OF True, of create loads w] lb have "w1 = w" "P1 = P" by auto
    then have "trace w1 = trace w @ [] \<and> out_file w1 = file_after [] (out_file w) \<and>
           ordered P {} [] \<and> P1 = P \<union> set (added ([]::out_record effect list)) \<and>
           list_all (\<lambda>e. \<not> is_file_reset e) ([]::out_record effect list)" by simp
    then show ?thesis by blast
  next
    case False
    then have go: "content_of row \<noteq> []" "news_id_of row \<notin> P" by auto
    from loop_body_effects[OF lb go] obtain new fin where
      h: "trace w1 = trace w @ new" "out_file w1 = file_after new (out_file w)"
         "block (news_id_of row) fin new"
         "P1 = (if fin then insert (news_id_of row) P else P)" by blast
    have "ordered P {} new" using block_ordered[OF h(3) go(2)] .
    moreover have "P1 = P \<union> set (added new)" using h(4) block_projections(1)[OF h(3)] by auto
    moreover note block_projections(2)[OF h(3)]
    ultimately show ?thesis using h(1,2) by blast
  qed
  then obtain new1 where
    n1: "trace w1 = trace w @ new1" "out_file w1 = file_after new1 (out_file w)"
        "ordered P {} new1" "P1 = P \<union> set (added new1)"
        "list_all (\<lambda>e. \<not> is_file_reset e) new1" by blast
  show ?case
  proof (cases r1)
    case (Inl e)
    with Cons.prems lb have "w' = w1" "P' = P1" by auto
    with n1 show ?thesis by blast
  next
    case (Inr u)
    with Cons.prems lb have "main_loop create loads rows P1 w1 = (res, P', w')" by simp
    from Cons.IH[OF this] obtain new2 where
      n2: "trace w' = trace w1 @ new2" "out_file w' = file_after new2 (out_file w1)"
        "ordered P1 {} new2" "P' = P1 \<union> set (added new2)"
        "list_all (\<lambda>e. \<not> is_file_reset e) new2" by blast
    have "ordered P {} (new1 @ new2)"
      using n1(3,4) ordered_mono[OF n2(3), of "NewsID ` set (appended new1)"]
      by (simp add: ordered_append)
    then have "trace w' = trace w @ (new1 @ new2) \<and>
           out_file w' = file_after (new1 @ new2) (out_file w) \<and>
           ordered P {} (new1 @ new2) \<and> P' = P \<union> set (added (new1 @ new2)) \<and>
           list_all (\<lambda>e. \<not> is_file_reset e) (new1 @ new2)"
      using n1 n2 by auto
    then show ?thesis by blast
  qed
qed


section \<open>A run of main\<close>

lemma loop_body_mono: "loop_body create loads row P w = (res, P', w') \<Longrightarrow> P \<subseteq> P'"
proof (cases "content_of row = [] \<or> news_id_of row \<in> P")
  case True
  assume "loop_body create loads row P w = (res, P', w')"
  with loop_body_skip[OF True, of create loads w] show ?thesis by simp
next
  case False
  assume lb: "loop_body create loads row P w = (res, P', w')"
  from False have go: "content_of row \<noteq> []" "news_id_of row \<notin> P" by auto
  from loop_body_effects[OF lb go] show ?thesis by (auto split: if_splits)
qed

lemma main_loop_filter:
  "P0 \<subseteq> P \<Longrightarrow>
     main_loop create loads (filter (\<lambda>row. news_id_of row \<notin> P0) rows) P w =
     main_loop create loads rows P w"
proof (induction rows arbitrary: P w)
  case Nil
  show ?case by simp
next
  case (Cons row rows)
  show ?case
  proof (cases "news_id_of row \<in> P0")
    case True
    with Cons.prems have "news_id_of row \<in> P" by auto
    then have "loop_body create loads row P w = (Inr (), P, w)"
      by (simp add: loop_body_skip)
    with True Cons.IH[OF Cons.prems] show ?thesis by simp
  next
    case False
    obtain r1 P1 w1 where lb: "loop_body create loads row P w = (r1, P1, w1)"
      by (cases "loop_body create loads row P w") auto
    from loop_body_mono[OF lb] Cons.prems have "P0 \<subseteq> P1" by auto
    from Cons.IH[OF this] False lb show ?thesis by (cases r1) simp_all
  qed
qed

lemma file_after_grows:
  "list_all (\<lambda>e. \<not> is_file_reset e) new \<Longrightarrow>
     \<exists>more. file_after new (Some ls) = Some (ls @ more)"
proof (induction new arbitrary: ls)
  case Nil
  have "file_after [] (Some ls) = Some (ls @ [])" by simp
  then show ?case by blast
next
  case (Cons e new)
  then have rest: "list_all (\<lambda>e. \<not> is_file_reset e) new" by simp
  show ?case
  proof (cases e)
    case (Appended r)
    from Cons.IH[OF rest, of "ls @ [RecordLine r]"] obtain more where
      "file_after new (Some (ls @ [RecordLine r])) = Some ((ls @ [RecordLine r]) @ more)" by blast
    with Appended have "file_after (e # new) (Some ls) = Some (ls @ (RecordLine r # more))" by simp
    then show ?thesis by blast
  next
    case (Requested x)
    with Cons.IH[OF rest, of ls] show ?thesis by simp
  next
    case (Added x)
    with Cons.IH[OF rest, of ls] show ?thesis by simp
  next
    case Created
    with Cons.prems show ?thesis by simp
  next
    case (Rewritten x)
    with Cons.prems show ?thesis by simp
  qed
qed

lemma ordered_appended_notin:
  "ordered fin beg es \<Longrightarrow> \<forall>r\<in>set (appended es). NewsID r \<notin> fin"
  by (induction fin beg es rule: ordered.induct) auto

lemma ensure_output_csv_simps:
  "out_file (ensure_output_csv w) = (if out_file w = None then Some [HeaderLine] else out_file w)"
  "trace (ensure_output_csv w) = trace w @ (if out_file w = None then [Created] else [])"
  "ids_in_file read_as (out_file (ensure_output_csv w)) = ids_in_file read_as (out_file w)"
  by (auto simp: ensure_output_csv_def ids_in_file_def astype_str_def)

text \<open>What \<^verbatim>\<open>main\<close> does once the input is there, in terms of the loop: the
  identifiers it takes as processed are those of the file it found.\<close>

lemma main_unfold:
  "main create loads read_as (Some rows) w =
     (case out_file (ensure_output_csv w) of
        Some (HeaderLine # rest) \<Rightarrow>
          (case main_loop create loads rows (ids_in_file read_as (out_file w)) (ensure_output_csv w) of
             (res, P', w') \<Rightarrow> (res, w'))
      | Some (RecordLine r # rest) \<Rightarrow> (Inl (no_attribute ''list'' ''astype''), ensure_output_csv w)
      | _ \<Rightarrow> (Inl (EmptyDataError ''No columns to parse from file''), ensure_output_csv w))"
proof -
  have ne: "out_file (ensure_output_csv w) \<noteq> None" by (simp add: ensure_output_csv_simps)
  have ids: "out_file (ensure_output_csv w) = Some (HeaderLine # rest) \<Longrightarrow>
      set (astype_str read_as (map written_id rest)) = ids_in_file read_as (out_file w)" for rest
    using ensure_output_csv_simps(3)[of read_as w] by (simp add: ids_in_file_def)
  show ?thesis
    using ne ids
    by (auto simp: main_def Let_def load_existing_results_def read_csv_def processed_ids_of_def
        split: option.splits list.splits csv_line.splits)
qed

lemma new_effects_eq: "trace w' = trace w @ new \<Longrightarrow> new_effects w w' = new"
  by (simp add: new_effects_def)

lemma main_effects:
  assumes "main create loads read_as (Some rows) w = (res, w')"
  shows "\<exists>new. trace w' = trace w @ (if out_file w = None then [Created] else []) @ new \<and>
           out_file w' = file_after new (out_file (ensure_output_csv w)) \<and>
           ordered (ids_in_file read_as (out_file w)) {} new \<and>
           list_all (\<lambda>e. \<not> is_file_reset e) new"
proof -
  let ?w1 = "ensure_output_csv w"
  have nil: "trace ?w1 = trace w @ (if out_file w = None then [Created] else []) @ [] \<and>
           out_file ?w1 = file_after [] (out_file ?w1) \<and>
           ordered (ids_in_file read_as (out_file w)) {} [] \<and>
           list_all (\<lambda>e. \<not> is_file_reset e) ([]::out_record effect list)"
    by (simp add: ensure_output_csv_simps)
  show ?thesis
  proof (cases "\<exists>rest. out_file ?w1 = Some (HeaderLine # rest)")
    case False
    with assms have "w' = ?w1"
      by (auto simp: main_unfold split: option.splits list.splits csv_line.splits)
    with nil show ?thesis by blast
  next
    case True
    then obtain rest where f: "out_file ?w1 = Some (HeaderLine # rest)" by blast
    obtain r P' w2 where ml: "main_loop create loads rows (ids_in_file read_as (out_file w)) ?w1 = (r, P', w2)"
      by (cases "main_loop create loads rows (ids_in_file read_as (out_file w)) ?w1") auto
    with assms f have "w' = w2" by (simp add: main_unfold)
    with main_loop_effects[OF ml] show ?thesis
      by (auto simp: ensure_output_csv_simps)
  qed
qed

lemma main_filter:
  "main create loads read_as (Some rows) w =
     main create loads read_as (Some (filter (\<lambda>row. news_id_of row \<notin> ids_in_file read_as (out_file w)) rows)) w"
  by (simp only: main_unfold main_loop_filter[OF subset_refl])

section \<open>Replies at the first attempt\<close>

text \<open>When the service answers a request at the first attempt, the wrapper hands the
  answer on after that one request.\<close>

lemma run_chat_completion_first_ok:
  assumes "create req (remote w) = (Inr c, r')"
  shows "run_chat_completion create req w = (Inr c, emit (Requested req) (w\<lparr>remote := r'\<rparr>))"
proof -
  have u: "[1..MAX_RETRIES] = 1 # [2..MAX_RETRIES]" by (simp add: MAX_RETRIES_def upto_rec1)
  have "api_call create req w = (Inr c, emit (Requested req) (w\<lparr>remote := r'\<rparr>))"
    using assms by (simp add: api_call_def)
  then show ?thesis
    by (cases c) (simp_all add: run_chat_completion_def call_with_retries_def u fresh_def)
qed

lemma loop_body_no_events:
  assumes go: "content_of row \<noteq> []" "news_id_of row \<notin> P"
    and ev: "create \<lparr>task = CameoEvents, texts = [content_of row]\<rparr> (remote w) = (Inr (Some t), r1)"
    and su: "create \<lparr>task = Summary, texts = [content_of row]\<rparr> r1 = (Inr (Some s), r2)"
    and lo: "loads t = Inr (PDict d)" and em: "\<not> truthy (dict_get d ''events'' (PList []))"
  shows "loop_body create loads row P w =
           (Inr (), insert (news_id_of row) P,
            w\<lparr>remote := r2,
              out_file := apply_effect (out_file w)
                            (Appended (blank_record row (news_id_of row) (strip s))),
              trace := trace w @
                 [Requested \<lparr>task = CameoEvents, texts = [content_of row]\<rparr>,
                  Requested \<lparr>task = Summary, texts = [content_of row]\<rparr>,
                  Appended (blank_record row (news_id_of row) (strip s)),
                  Added (news_id_of row)]\<rparr>)"
proof -
  let ?c = "content_of row"
  let ?q1 = "\<lparr>task = CameoEvents, texts = [?c]\<rparr>" and ?q2 = "\<lparr>task = Summary, texts = [?c]\<rparr>"
  let ?w1 = "emit (Requested ?q1) (w\<lparr>remote := r1\<rparr>)"
  let ?w2 = "emit (Requested ?q2) (?w1\<lparr>remote := r2\<rparr>)"
  have c1: "get_cameo_events_with_llm create loads ?c w = (Inr (PDict d), ?w1)"
    using run_chat_completion_first_ok[of create ?q1 w "Some t" r1] ev lo
    by (simp add: get_cameo_events_with_llm_def json_loads_def)
  have su': "create ?q2 (remote ?w1) = (Inr (Some s), r2)" using su by simp
  have c2: "get_summary_with_llm create ?c ?w1 = (Inr (strip s), ?w2)"
    using run_chat_completion_first_ok[of create ?q2 ?w1 "Some s" r2] su'
    by (simp add: get_summary_with_llm_def)
  show ?thesis
    using go c1 c2 em
    by (simp add: loop_body_def Let_def content_of_def[symmetric] news_id_of_def[symmetric]
        emit_def append_record_def)
qed

lemma loop_body_two_events:
  assumes go: "content_of row \<noteq> []" "news_id_of row \<notin> P"
    and ev: "create \<lparr>task = CameoEvents, texts = [content_of row]\<rparr> (remote w) = (Inr (Some t), r1)"
    and su: "create \<lparr>task = Summary, texts = [content_of row]\<rparr> r1 = (Inr (Some s), r2)"
    and lo: "loads t = Inr (PDict d)"
    and two: "dict_get d ''events'' (PList []) = PList [PDict e1, PDict e2]"
    and r1: "event_record row (news_id_of row) (strip s) (PDict e1) = Inr rec1"
    and r2: "event_record row (news_id_of row) (strip s) (PDict e2) = Inr rec2"
  shows "loop_body create loads row P w =
           (Inr (), insert (news_id_of row) P,
            w\<lparr>remote := r2,
              out_file := apply_effect (apply_effect (out_file w) (Appended rec1)) (Appended rec2),
              trace := trace w @
                 [Requested \<lparr>task = CameoEvents, texts = [content_of row]\<rparr>,
                  Requested \<lparr>task = Summary, texts = [content_of row]\<rparr>,
                  Appended rec1, Appended rec2,
                  Added (news_id_of row)]\<rparr>)"
proof -
  let ?c = "content_of row"
  let ?q1 = "\<lparr>task = CameoEvents, texts = [?c]\<rparr>" and ?q2 = "\<lparr>task = Summary, texts = [?c]\<rparr>"
  let ?w1 = "emit (Requested ?q1) (w\<lparr>remote := r1\<rparr>)"
  let ?w2 = "emit (Requested ?q2) (?w1\<lparr>remote := r2\<rparr>)"
  have c1: "get_cameo_events_with_llm create loads ?c w = (Inr (PDict d), ?w1)"
    using run_chat_completion_first_ok[of create ?q1 w "Some t" r1] ev lo
    by (simp add: get_cameo_events_with_llm_def json_loads_def)
  have su': "create ?q2 (remote ?w1) = (Inr (Some s), r2)" using su by simp
  have c2: "get_summary_with_llm create ?c ?w1 = (Inr (strip s), ?w2)"
    using run_chat_completion_first_ok[of create ?q2 ?w1 "Some s" r2] su'
    by (simp add: get_summary_with_llm_def)
  have we: "write_events row (news_id_of row) (strip s) [PDict e1, PDict e2] ?w2 =
      (Inr (), append_record rec2 (append_record rec1 ?w2))"
    using r1 r2 by (simp del: event_record.simps)
  show ?thesis
    using go c1 c2 two we
    by (simp add: loop_body_def Let_def content_of_def[symmetric] news_id_of_def[symmetric]
        emit_def append_record_def del: event_record.simps write_events.simps)
qed

lemma ensure_output_csv_remote [simp]: "remote (ensure_output_csv w) = remote w"
  by (simp add: ensure_output_csv_def)

section \<open>The test doubles\<close>

lemma toy_ids: "news_id_of row_A = ''A''" "news_id_of row_B = ''B''"
  "news_id_of row_007 = ''007''" "news_id_of row_nan = ''E''"
  by (simp_all add: news_id_of_def row_A_def row_B_def row_007_def row_nan_def row_get_def
        NEWS_ID_COLUMN_def strip_def is_space_def)

lemma toy_contents: "content_of row_A = ''quiet day''" "content_of row_B = ''talks and protest''"
  "content_of row_007 = ''quiet day''" "content_of row_nan = ''nan''"
  by (simp_all add: content_of_def row_A_def row_B_def row_007_def row_nan_def row_get_def
        CONTENT_COLUMN_def strip_def is_space_def)

lemma toy_strip: "strip '' a summary '' = ''a summary''"
  by (simp add: strip_def is_space_def)

lemma toy_records:
  "event_record row_B ''B'' ''a summary''
     (PDict [(''event_order'', PInt 1), (''cameo_code'', PStr ''042'')]) = Inr rec_B1"
  "event_record row_B ''B'' ''a summary''
     (PDict [(''event_order'', PInt 2), (''cameo_code'', PStr ''112'')]) = Inr rec_B2"
  by (simp_all add: rec_B1_def rec_B2_def row_B_def row_get_def dict_get_def)

lemma toy_loop_body_quiet:
  assumes "content_of row = ''quiet day''" and "news_id_of row \<notin> P" and "remote w = ()"
  shows "loop_body toy_service toy_loads row P w =
           (Inr (), insert (news_id_of row) P,
            w\<lparr>remote := (),
              out_file := apply_effect (out_file w)
                            (Appended (blank_record row (news_id_of row) ''a summary'')),
              trace := trace w @
                 [Requested \<lparr>task = CameoEvents, texts = [''quiet day'']\<rparr>,
                  Requested \<lparr>task = Summary, texts = [''quiet day'']\<rparr>,
                  Appended (blank_record row (news_id_of row) ''a summary''),
                  Added (news_id_of row)]\<rparr>)"
proof -
  have go: "content_of row \<noteq> []" using assms(1) by simp
  have ev: "toy_service \<lparr>task = CameoEvents, texts = [content_of row]\<rparr> (remote w)
              = (Inr (Some ''none''), ())"
    and su: "toy_service \<lparr>task = Summary, texts = [content_of row]\<rparr> ()
              = (Inr (Some '' a summary ''), ())"
    by (simp_all add: toy_service_def assms(1))
  have lo: "toy_loads ''none'' = Inr (PDict [(''events'', PList [])])"
    and em: "\<not> truthy (dict_get [(''events'', PList [])] ''events'' (PList []))"
    by (simp_all add: toy_loads_def dict_get_def)
  note la = loop_body_no_events[where create = toy_service and loads = toy_loads and w = w
      and P = P, OF go assms(2) ev su lo em]
  then show ?thesis by (simp only: assms(1) toy_strip)
qed

lemma toy_loop_body_B:
  assumes "''B'' \<notin> P" and "remote w = ()"
  shows "loop_body toy_service toy_loads row_B P w =
           (Inr (), insert ''B'' P,
            w\<lparr>remote := (),
              out_file := apply_effect (apply_effect (out_file w) (Appended rec_B1)) (Appended rec_B2),
              trace := trace w @
                 [Requested \<lparr>task = CameoEvents, texts = [''talks and protest'']\<rparr>,
                  Requested \<lparr>task = Summary, texts = [''talks and protest'']\<rparr>,
                  Appended rec_B1, Appended rec_B2, Added ''B'']\<rparr>)"
proof -
  let ?e1 = "[(''event_order'', PInt 1), (''cameo_code'', PStr ''042'')]"
  let ?e2 = "[(''event_order'', PInt 2), (''cameo_code'', PStr ''112'')]"
  have go: "content_of row_B \<noteq> []" "news_id_of row_B \<notin> P"
    using assms by (simp_all add: toy_contents toy_ids)
  have ev: "toy_service \<lparr>task = CameoEvents, texts = [content_of row_B]\<rparr> (remote w)
              = (Inr (Some ''two''), ())"
    and su: "toy_service \<lparr>task = Summary, texts = [content_of row_B]\<rparr> ()
              = (Inr (Some '' a summary ''), ())"
    by (simp_all add: toy_service_def toy_contents)
  have lo: "toy_loads ''two'' = Inr (PDict [(''events'', PList [PDict ?e1, PDict ?e2])])"
    and two: "dict_get [(''events'', PList [PDict ?e1, PDict ?e2])] ''events'' (PList [])
       = PList [PDict ?e1, PDict ?e2]"
    by (simp_all add: toy_loads_def dict_get_def)
  have r1: "event_record row_B (news_id_of row_B) (strip '' a summary '') (PDict ?e1) = Inr rec_B1"
    and r2: "event_record row_B (news_id_of row_B) (strip '' a summary '') (PDict ?e2) = Inr rec_B2"
    by (simp_all only: toy_ids toy_strip toy_records)
  note lb = loop_body_two_events[where create = toy_service and loads = toy_loads and w = w
      and P = P, OF go ev su lo two r1 r2]
  then show ?thesis by (simp only: toy_contents toy_ids)
qed

lemma empty_world_simps:
  "remote empty_world = ()" "out_file empty_world = None" "trace empty_world = []"
  by (simp_all add: empty_world_def)

lemma sample_reader_simps:
  "astype_str sample_reader [] = []"
  "astype_str sample_reader [''A''] = [''A'']"
  "astype_str sample_reader [''B''] = [''B'']"
  "astype_str sample_reader [''007''] = [''7'']"
  by (simp_all add: astype_str_def sample_reader_def is_digit_def)


section \<open>Resuming (claim C1)\<close>

lemma check_cameo_relevance_effects:
  "\<exists>v w'. check_cameo_relevance create loads title content w = (Inr v, w') \<and>
          trace w' = trace w @ [Requested \<lparr>task = Relevance, texts = [title, take 15000 content]\<rparr>]"
proof -
  let ?q = "\<lparr>task = Relevance, texts = [title, take 15000 content]\<rparr>"
  obtain r w1 where a: "api_call create ?q w = (r, w1)" by (cases "api_call create ?q w")
  from api_call_frame[OF a] have t: "trace w1 = trace w @ [Requested ?q]" by simp
  have "\<exists>v. check_cameo_relevance create loads title content w = (Inr v, w1)"
    using a by (auto simp: check_cameo_relevance_def split: sum.splits)
  with t show ?thesis by blast
qed

lemma filter32_loop_effects:
  "\<exists>results' w'. filter32_loop create loads index rows results w = (Inr results', w') \<and>
      length results' = length results + length rows \<and>
      trace w' = trace w @ map (\<lambda>row. Requested (relevance_request row)) rows"
proof (induction rows arbitrary: index results w)
  case Nil
  show ?case by simp
next
  case (Cons row rows)
  let ?title = "str_cell (row_get row ''Title'' (CStr ''''))"
  let ?content = "str_cell (row_get row ''Content'' (CStr ''''))"
  from check_cameo_relevance_effects[of create loads ?title ?content w] obtain v w1 where
    c: "check_cameo_relevance create loads ?title ?content w = (Inr v, w1)"
    and t: "trace w1 = trace w @ [Requested (relevance_request row)]"
    by (auto simp: relevance_request_def)
  obtain is_relevant reason where v: "v = (is_relevant, reason)" by (cases v)
  let ?rec = "\<lparr>F_NewsID = row_get row ''NewsID'' (CInt index),
               F_Date = row_get row ''Date'' (CStr ''''), F_Title = ?title,
               Is_Relevant = is_relevant, Reason_English = reason,
               Content_Snippet = take 150 ?content\<rparr>"
  from Cons.IH[of "index + 1" "results @ [?rec]" w1] obtain results' w' where
    ih: "filter32_loop create loads (index + 1) rows (results @ [?rec]) w1 = (Inr results', w')"
        "length results' = length (results @ [?rec]) + length rows"
        "trace w' = trace w1 @ map (\<lambda>row. Requested (relevance_request row)) rows" by blast
  have "filter32_loop create loads index (row # rows) results w = (Inr results', w')"
    using c v ih(1) by (simp add: Let_def)
  moreover have "length results' = length results + length (row # rows)" using ih(2) by simp
  moreover have "trace w' = trace w @ map (\<lambda>row. Requested (relevance_request row)) (row # rows)"
    using t ih(3) by simp
  ultimately show ?case by blast
qed

lemma requested_map_Requested [simp]:
  "requested (map Requested reqs) = reqs"
  "requested (map (Requested \<circ> f) xs) = map f xs"
  by (induction reqs, simp_all) (induction xs, simp_all)

lemma filter32_main_effects:
  "\<exists>res w' results.
      filter32_main create loads (Some df) w = (res, w') \<and>
      requested (new_effects w w') = map (relevance_request \<circ> strip_columns \<circ> fillna) df \<and>
      length results = length df \<and>
      out_file w' = Some (if df = [] then [] else HeaderLine # map RecordLine results)"
proof -
  let ?rows = "map (strip_columns \<circ> fillna) df"
  from filter32_loop_effects[of create loads 0 ?rows "[]" w] obtain results w1 where
    l: "filter32_loop create loads 0 ?rows [] w = (Inr results, w1)"
    and n: "length results = length df"
    and t: "trace w1 = trace w @ map (\<lambda>row. Requested (relevance_request row)) ?rows"
    by auto
  let ?ls = "if results = [] then [] else HeaderLine # map RecordLine results"
  let ?w2 = "emit (Rewritten ?ls) (w1\<lparr>out_file := Some ?ls\<rparr>)"
  have e: "(results = []) = (df = [])" using n by auto
  have m: "filter32_main create loads (Some df) w =
             (if results = [] then Inl (KeyError ''Is_Relevant'') else Inr (), ?w2)"
    using l by (simp add: filter32_main_def Let_def)
  have "trace ?w2 = trace w @
      (map Requested (map (relevance_request \<circ> strip_columns \<circ> fillna) df) @ [Rewritten ?ls])"
    using t by (simp add: comp_def)
  from new_effects_eq[OF this]
  have "requested (new_effects w ?w2) = map (relevance_request \<circ> strip_columns \<circ> fillna) df"
    by simp
  moreover have "out_file ?w2 = Some (if df = [] then [] else HeaderLine # map RecordLine results)"
    using e by simp
  ultimately show ?thesis using m n by blast
qed

text \<open>
  Claim C1, as amended.

  \<^verbatim>\<open>CAMEO-3.py\<close>: a run on an input table does exactly what it does on the table
  without the rows whose identifier is in the set that the run reads from the output
  file when it starts (the \<^verbatim>\<open>NewsID\<close> column as \<open>read_as\<close> gives it): same
  result, same requests to the service, same file. So it sends no request for such an
  identifier. The lines that were in the file stay where they are, what the run writes
  comes after them, and no record of such an identifier is among what it writes. When
  the column is read back as it was written, that set is the set of the identifiers
  present in the file, and all of this holds for every identifier present in the file.

  \<^verbatim>\<open>Filter-3.2.py\<close>: whatever the output file holds, a run sends one request for
  each row of the input, in order, and leaves a file that holds the header and one
  record for each row (nothing of what was there).
\<close>

theorem main_resume_skips_processed:
  "main create loads read_as (Some rows) w =
     main create loads read_as
       (Some (filter (\<lambda>row. news_id_of row \<notin> ids_in_file read_as (out_file w)) rows)) w \<and>
   (\<forall>ls. out_file w = Some ls \<longrightarrow>
      (\<exists>more. out_file (snd (main create loads read_as (Some rows) w)) = Some (ls @ more))) \<and>
   (\<forall>r \<in> set (appended (new_effects w (snd (main create loads read_as (Some rows) w)))).
      NewsID r \<notin> ids_in_file read_as (out_file w)) \<and>
   (read_back_exact read_as (out_file w) \<longrightarrow>
      main create loads read_as (Some rows) w =
        main create loads read_as
          (Some (filter (\<lambda>row. news_id_of row \<notin> written_ids (out_file w)) rows)) w \<and>
      (\<forall>r \<in> set (appended (new_effects w (snd (main create loads read_as (Some rows) w)))).
         NewsID r \<notin> written_ids (out_file w))) \<and>
   (\<exists>res w' results.
      filter32_main create_f loads_f (Some df) w_f = (res, w') \<and>
      requested (new_effects w_f w') = map (relevance_request \<circ> strip_columns \<circ> fillna) df \<and>
      length results = length df \<and>
      out_file w' = Some (if df = [] then [] else HeaderLine # map RecordLine results))"
proof -
  have 1: "main create loads read_as (Some rows) w =
     main create loads read_as
       (Some (filter (\<lambda>row. news_id_of row \<notin> ids_in_file read_as (out_file w)) rows)) w"
    by (rule main_filter)
  obtain res w' where m: "main create loads read_as (Some rows) w = (res, w')"
    by (cases "main create loads read_as (Some rows) w")
  from main_effects[OF m] obtain new where
    h: "trace w' = trace w @ (if out_file w = None then [Created] else []) @ new"
       "out_file w' = file_after new (out_file (ensure_output_csv w))"
       "ordered (ids_in_file read_as (out_file w)) {} new"
       "list_all (\<lambda>e. \<not> is_file_reset e) new" by blast
  have 2: "\<exists>more. out_file (snd (main create loads read_as (Some rows) w)) = Some (ls @ more)"
    if ls: "out_file w = Some ls" for ls
  proof -
    from ls have "out_file (ensure_output_csv w) = Some ls" by (simp add: ensure_output_csv_simps)
    with file_after_grows[OF h(4), of ls] h(2) have "\<exists>more. out_file w' = Some (ls @ more)"
      by simp
    then show ?thesis by (simp add: m)
  qed
  have "new_effects w w' = (if out_file w = None then [Created] else []) @ new"
    by (rule new_effects_eq) (use h(1) in simp)
  then have "appended (new_effects w w') = appended new"
    by simp
  with ordered_appended_notin[OF h(3)]
  have 3: "\<forall>r \<in> set (appended (new_effects w (snd (main create loads read_as (Some rows) w)))).
      NewsID r \<notin> ids_in_file read_as (out_file w)"
    by (simp add: m)
  have ids: "ids_in_file read_as (out_file w) = written_ids (out_file w)"
    if "read_back_exact read_as (out_file w)"
    using that by (cases "out_file w") (simp_all add: ids_in_file_def written_ids_def read_back_exact_def)
  have 4: "main create loads read_as (Some rows) w =
        main create loads read_as
          (Some (filter (\<lambda>row. news_id_of row \<notin> written_ids (out_file w)) rows)) w \<and>
      (\<forall>r \<in> set (appended (new_effects w (snd (main create loads read_as (Some rows) w)))).
         NewsID r \<notin> written_ids (out_file w))"
    if ex: "read_back_exact read_as (out_file w)"
    using 1 3 unfolding ids[OF ex] by (rule conjI)
  note 5 = filter32_main_effects[of create_f loads_f df w_f]
  from 1 2 3 4 5 show ?thesis by blast
qed

lemma world_A_ids: "ids_in_file sample_reader (out_file world_A) = {''A''}"
  "written_ids (out_file world_A) = {''A''}"
  "read_back_exact sample_reader (out_file world_A)"
  by (simp_all add: ids_in_file_def written_ids_def read_back_exact_def world_A_def
      written_id_def rec_A_def blank_record_def sample_reader_simps)

lemma row_A_request:
  "map (relevance_request \<circ> strip_columns \<circ> fillna) [row_A] =
     [\<lparr>task = Relevance, texts = ['''', ''quiet day'']\<rparr>]"
  by (simp add: relevance_request_def strip_columns_def fillna_def row_A_def row_get_def
      strip_def is_space_def)

theorem main_resume_skips_processed_witness:
  "main toy_service toy_loads sample_reader (Some [row_A, row_B]) world_A =
     main toy_service toy_loads sample_reader (Some [row_B]) world_A \<and>
   (\<exists>more. out_file (snd (main toy_service toy_loads sample_reader (Some [row_A, row_B]) world_A))
             = Some ([HeaderLine, RecordLine rec_A] @ more)) \<and>
   list_all (\<lambda>r. NewsID r \<noteq> ''A'')
     (appended (new_effects world_A
        (snd (main toy_service toy_loads sample_reader (Some [row_A, row_B]) world_A)))) \<and>
   read_back_exact sample_reader (out_file world_A) \<and>
   written_ids (out_file world_A) = {''A''} \<and>
   (\<exists>res w' result.
      filter32_main down toy_loads (Some [row_A]) world_F = (res, w') \<and>
      requested (new_effects world_F w') = [\<lparr>task = Relevance, texts = ['''', ''quiet day'']\<rparr>] \<and>
      out_file w' = Some [HeaderLine, RecordLine result])"
proof -
  have filt: "filter (\<lambda>row. news_id_of row \<notin> {''A''}) [row_A, row_B] = [row_B]"
    by (simp add: toy_ids)
  have f: "out_file world_A = Some [HeaderLine, RecordLine rec_A]" by (simp add: world_A_def)
  note c = main_resume_skips_processed [where create = toy_service and loads = toy_loads
      and read_as = sample_reader and rows = "[row_A, row_B]" and w = world_A
      and create_f = down and loads_f = toy_loads and df = "[row_A]" and w_f = world_F,
      unfolded world_A_ids filt row_A_request]
  from c have 1: "main toy_service toy_loads sample_reader (Some [row_A, row_B]) world_A =
     main toy_service toy_loads sample_reader (Some [row_B]) world_A" by (rule conjunct1)
  from c f have 2: "\<exists>more. out_file (snd (main toy_service toy_loads sample_reader (Some [row_A, row_B]) world_A))
             = Some ([HeaderLine, RecordLine rec_A] @ more)" by blast
  from c have 3: "list_all (\<lambda>r. NewsID r \<noteq> ''A'')
     (appended (new_effects world_A
        (snd (main toy_service toy_loads sample_reader (Some [row_A, row_B]) world_A))))"
    unfolding list_all_iff by blast
  from c obtain res w' results where
    r: "filter32_main down toy_loads (Some [row_A]) world_F = (res, w')"
       "requested (new_effects world_F w') = [\<lparr>task = Relevance, texts = ['''', ''quiet day'']\<rparr>]"
       "length results = length [row_A]"
       "out_file w' = Some (if [row_A] = [] then [] else HeaderLine # map RecordLine results)"
    by blast
  from r(3) obtain result where "results = [result]" by (cases results) auto
  with r(4) have "out_file w' = Some [HeaderLine, RecordLine result]" by simp
  with r(1,2) have 4: "\<exists>res w' result.
      filter32_main down toy_loads (Some [row_A]) world_F = (res, w') \<and>
      requested (new_effects world_F w') = [\<lparr>task = Relevance, texts = ['''', ''quiet day'']\<rparr>] \<and>
      out_file w' = Some [HeaderLine, RecordLine result]" by blast
  from 1 2 3 4 world_A_ids(2,3) show ?thesis by (intro conjI)
qed

lemma world_007_ids: "ids_in_file sample_reader (out_file world_007) = {''7''}"
  by (simp add: ids_in_file_def world_007_def written_id_def rec_007_def blank_record_def
      sample_reader_simps)

lemma toy_run_007:
  "main toy_service toy_loads sample_reader (Some [row_007]) world_007 =
     (Inr (), \<lparr>remote = (),
        out_file = Some [HeaderLine, RecordLine rec_007, RecordLine rec_007],
        trace = [Requested \<lparr>task = CameoEvents, texts = [''quiet day'']\<rparr>,
                 Requested \<lparr>task = Summary, texts = [''quiet day'']\<rparr>,
                 Appended rec_007, Added ''007'']\<rparr>)"
proof -
  have e: "ensure_output_csv world_007 = world_007"
    by (simp add: ensure_output_csv_def world_007_def)
  have f: "out_file world_007 = Some [HeaderLine, RecordLine rec_007]"
    by (simp add: world_007_def)
  have r: "remote world_007 = ()" "trace world_007 = []" by (simp_all add: world_007_def)
  have n: "news_id_of row_007 \<notin> {''7''}" by (simp add: toy_ids)
  have lb: "loop_body toy_service toy_loads row_007 {''7''} world_007 =
      (Inr (), {''007'', ''7''},
       \<lparr>remote = (),
        out_file = Some [HeaderLine, RecordLine rec_007, RecordLine rec_007],
        trace = [Requested \<lparr>task = CameoEvents, texts = [''quiet day'']\<rparr>,
                 Requested \<lparr>task = Summary, texts = [''quiet day'']\<rparr>,
                 Appended rec_007, Added ''007'']\<rparr>)"
    unfolding toy_loop_body_quiet[OF toy_contents(3) n r(1)] toy_ids rec_007_def[symmetric]
    by (simp add: world_007_def)
  have ml: "main_loop toy_service toy_loads [row_007] {''7''} world_007 =
      (Inr (), {''007'', ''7''},
       \<lparr>remote = (),
        out_file = Some [HeaderLine, RecordLine rec_007, RecordLine rec_007],
        trace = [Requested \<lparr>task = CameoEvents, texts = [''quiet day'']\<rparr>,
                 Requested \<lparr>task = Summary, texts = [''quiet day'']\<rparr>,
                 Appended rec_007, Added ''007'']\<rparr>)"
    by (simp add: lb)
  show ?thesis
    by (simp add: main_unfold e f world_007_ids[unfolded f] ml del: main_loop.simps)
qed

text \<open>
  Claim C1 as it was stated fails in two ways.

  \<^verbatim>\<open>Filter-3.2.py\<close> does not resume: the output file holds a verdict for the
  identifier \<open>A\<close>, the input holds the row \<open>A\<close>, and a run sends a request for that
  row and replaces the record that was in the file.

  \<^verbatim>\<open>CAMEO-3.py\<close> does not always find an identifier that it wrote: the output file
  holds the record of the identifier \<^verbatim>\<open>007\<close> and nothing else, so its
  \<^verbatim>\<open>NewsID\<close> column is read as a column of integers and the set of processed
  identifiers is \<^verbatim>\<open>{'7'}\<close>; the run classifies the row \<^verbatim>\<open>007\<close> again and
  appends its record a second time.
\<close>

theorem rerun_classifies_present_identifiers:
  "requested (trace (snd (filter32_main down toy_loads (Some [row_A]) world_F)))
     = [\<lparr>task = Relevance, texts = ['''', ''quiet day'']\<rparr>] \<and>
   out_file (snd (filter32_main down toy_loads (Some [row_A]) world_F))
     = Some [HeaderLine,
             RecordLine (rec_F\<lparr>Is_Relevant := PBool False, Reason_English := PStr ''LLM Error: 503''\<rparr>)] \<and>
   out_file world_007 = Some [HeaderLine, RecordLine rec_007] \<and>
   NewsID rec_007 = news_id_of row_007 \<and>
   ids_in_file sample_reader (out_file world_007) = {''7''} \<and>
   requested (new_effects world_007
      (snd (main toy_service toy_loads sample_reader (Some [row_007]) world_007)))
     = [\<lparr>task = CameoEvents, texts = [''quiet day'']\<rparr>,
        \<lparr>task = Summary, texts = [''quiet day'']\<rparr>] \<and>
   out_file (snd (main toy_service toy_loads sample_reader (Some [row_007]) world_007))
     = Some [HeaderLine, RecordLine rec_007, RecordLine rec_007]"
proof -
  have a: "requested (trace (snd (filter32_main down toy_loads (Some [row_A]) world_F)))
     = [\<lparr>task = Relevance, texts = ['''', ''quiet day'']\<rparr>]"
    "out_file (snd (filter32_main down toy_loads (Some [row_A]) world_F))
     = Some [HeaderLine,
             RecordLine (rec_F\<lparr>Is_Relevant := PBool False, Reason_English := PStr ''LLM Error: 503''\<rparr>)]"
    by (simp_all add: filter32_main_def strip_columns_def fillna_def row_A_def strip_def
      is_space_def check_cameo_relevance_def api_call_def down_def world_F_def row_get_def
      llm_error_def rec_F_def Let_def)
  have b: "out_file world_007 = Some [HeaderLine, RecordLine rec_007]"
    "NewsID rec_007 = news_id_of row_007"
    by (simp_all add: world_007_def rec_007_def blank_record_def toy_ids)
  have c: "requested (new_effects world_007
      (snd (main toy_service toy_loads sample_reader (Some [row_007]) world_007)))
     = [\<lparr>task = CameoEvents, texts = [''quiet day'']\<rparr>,
        \<lparr>task = Summary, texts = [''quiet day'']\<rparr>]"
    unfolding toy_run_007 by (simp add: new_effects_def world_007_def)
  have d: "out_file (snd (main toy_service toy_loads sample_reader (Some [row_007]) world_007))
     = Some [HeaderLine, RecordLine rec_007, RecordLine rec_007]"
    unfolding toy_run_007 by simp
  from a b world_007_ids c d show ?thesis by (intro conjI)
qed


section \<open>When every call of the service fails\<close>

lemma api_call_raised:
  "always_fails create \<Longrightarrow> \<exists>e. raised (api_call create req) s = Some e"
proof -
  assume "always_fails create"
  then obtain e r' where "create req (remote s) = (Inl e, r')"
    unfolding always_fails_def by blast
  then have "raised (api_call create req) s = Some e"
    by (simp add: raised_def api_call_def)
  then show ?thesis by blast
qed

lemma run_chat_completion_all_fail:
  assumes "always_fails create"
  shows "\<exists>e. fst (run_chat_completion create req w) = Inl e"
proof -
  have all: "\<forall>s. \<exists>e. raised (api_call create req) s = Some e"
    using api_call_raised[OF assms] by blast
  have le: "(1::int) \<le> MAX_RETRIES" by (simp add: MAX_RETRIES_def)
  from all have made: "\<forall>j\<le>nat (MAX_RETRIES - 1).
      \<exists>e. raised (api_call create req) (env_after (api_call create req) j (env (fresh w))) = Some e"
    by blast
  from retry_loop_all_fail[OF le refl made]
  show ?thesis
    by (simp add: run_chat_completion_def call_with_retries_def)
qed

lemma loop_body_all_fail:
  assumes af: "always_fails create"
    and go: "content_of row \<noteq> []" "news_id_of row \<notin> P"
  shows "\<exists>e reqs w'.
           loop_body create loads row P w = (Inr (), insert (news_id_of row) P, w') \<and>
           trace w' = trace w @ map Requested reqs @
                        [Appended (blank_record row (news_id_of row) (error_summary e)),
                         Added (news_id_of row)] \<and>
           out_file w' = apply_effect (out_file w)
                           (Appended (blank_record row (news_id_of row) (error_summary e)))"
proof -
  let ?c = "content_of row" and ?i = "news_id_of row"
  let ?q1 = "\<lparr>task = CameoEvents, texts = [?c]\<rparr>" and ?q2 = "\<lparr>task = Summary, texts = [?c]\<rparr>"
  obtain x1 w1 where rc1: "run_chat_completion create ?q1 w = (x1, w1)"
    by (cases "run_chat_completion create ?q1 w")
  with run_chat_completion_all_fail[OF af, of ?q1 w] obtain e1 where x1: "x1 = Inl e1" by auto
  obtain x2 w2 where rc2: "run_chat_completion create ?q2 w1 = (x2, w2)"
    by (cases "run_chat_completion create ?q2 w1")
  with run_chat_completion_all_fail[OF af, of ?q2 w1] obtain e2 where x2: "x2 = Inl e2" by auto
  from run_chat_completion_frame[OF rc1] obtain n1 where
    f1: "out_file w1 = out_file w" "trace w1 = trace w @ replicate n1 (Requested ?q1)" by blast
  from run_chat_completion_frame[OF rc2] obtain n2 where
    f2: "out_file w2 = out_file w1" "trace w2 = trace w1 @ replicate n2 (Requested ?q2)" by blast
  have c1: "get_cameo_events_with_llm create loads ?c w = (Inr (error_result e1), w1)"
    using rc1 x1 by (simp add: get_cameo_events_with_llm_def)
  have c2: "get_summary_with_llm create ?c w1 = (Inr (error_summary e2), w2)"
    using rc2 x2 by (simp add: get_summary_with_llm_def)
  let ?rec = "blank_record row ?i (error_summary e2)"
  let ?w' = "emit (Added ?i) (append_record ?rec w2)"
  let ?reqs = "replicate n1 ?q1 @ replicate n2 ?q2"
  have "loop_body create loads row P w = (Inr (), insert ?i P, ?w')"
    using go c1 c2
    by (simp add: loop_body_def Let_def content_of_def[symmetric] news_id_of_def[symmetric]
        error_result_def dict_get_def)
  moreover have "trace ?w' = trace w @ map Requested ?reqs @ [Appended ?rec, Added ?i]"
    using f1 f2 by simp
  moreover have "out_file ?w' = apply_effect (out_file w) (Appended ?rec)"
    using f1 f2 by simp
  ultimately show ?thesis by blast
qed

lemma blank_error_sentinel:
  "is_error_sentinel row (blank_record row (news_id_of row) (error_summary e))"
  by (simp add: is_error_sentinel_def blank_record_def error_summary_def)

lemma main_loop_all_fail:
  assumes af: "always_fails create"
  shows "\<exists>new P' w'.
           main_loop create loads rows P w = (Inr (), P', w') \<and>
           trace w' = trace w @ new \<and>
           list_all2 is_error_sentinel (to_process P rows) (appended new) \<and>
           added new = map news_id_of (to_process P rows) \<and>
           out_file w' = file_after (map Appended (appended new)) (out_file w)"
proof (induction rows arbitrary: P w)
  case Nil
  have "main_loop create loads [] P w = (Inr (), P, w) \<and>
           trace w = trace w @ [] \<and>
           list_all2 is_error_sentinel (to_process P []) (appended ([]::out_record effect list)) \<and>
           added ([]::out_record effect list) = map news_id_of (to_process P []) \<and>
           out_file w = file_after (map Appended (appended ([]::out_record effect list))) (out_file w)"
    by simp
  then show ?case by blast
next
  case (Cons row rows)
  show ?case
  proof (cases "content_of row = [] \<or> news_id_of row \<in> P")
    case True
    then have skip: "loop_body create loads row P w = (Inr (), P, w)"
      by (rule loop_body_skip)
    from Cons.IH[of P w] obtain new P' w' where
      "main_loop create loads rows P w = (Inr (), P', w') \<and>
           trace w' = trace w @ new \<and>
           list_all2 is_error_sentinel (to_process P rows) (appended new) \<and>
           added new = map news_id_of (to_process P rows) \<and>
           out_file w' = file_after (map Appended (appended new)) (out_file w)" by blast
    with skip True have "main_loop create loads (row # rows) P w = (Inr (), P', w') \<and>
           trace w' = trace w @ new \<and>
           list_all2 is_error_sentinel (to_process P (row # rows)) (appended new) \<and>
           added new = map news_id_of (to_process P (row # rows)) \<and>
           out_file w' = file_after (map Appended (appended new)) (out_file w)" by auto
    then show ?thesis by blast
  next
    case False
    then have go: "content_of row \<noteq> []" "news_id_of row \<notin> P" by auto
    let ?i = "news_id_of row"
    from loop_body_all_fail[OF af go, of loads w] obtain e reqs w1 where
      lb: "loop_body create loads row P w = (Inr (), insert ?i P, w1)"
      and t1: "trace w1 = trace w @ map Requested reqs @
                        [Appended (blank_record row ?i (error_summary e)), Added ?i]"
      and f1: "out_file w1 = apply_effect (out_file w)
                           (Appended (blank_record row ?i (error_summary e)))" by blast
    let ?rec = "blank_record row ?i (error_summary e)"
    from Cons.IH[of "insert ?i P" w1] obtain new P' w' where
      ih: "main_loop create loads rows (insert ?i P) w1 = (Inr (), P', w')"
           "trace w' = trace w1 @ new"
           "list_all2 is_error_sentinel (to_process (insert ?i P) rows) (appended new)"
           "added new = map news_id_of (to_process (insert ?i P) rows)"
           "out_file w' = file_after (map Appended (appended new)) (out_file w1)" by blast
    let ?new = "map Requested reqs @ [Appended ?rec, Added ?i] @ new"
    have [simp]: "appended (map Requested reqs) = []" "added (map Requested reqs) = []"
      by (induction reqs) simp_all
    have "main_loop create loads (row # rows) P w = (Inr (), P', w')" using lb ih(1) by simp
    moreover have "trace w' = trace w @ ?new" using t1 ih(2) by simp
    moreover have "list_all2 is_error_sentinel (to_process P (row # rows)) (appended ?new)"
      using go ih(3) blank_error_sentinel[of row e] by simp
    moreover have "added ?new = map news_id_of (to_process P (row # rows))"
      using go ih(4) by simp
    moreover have "out_file w' = file_after (map Appended (appended ?new)) (out_file w)"
      using ih(5) f1 by simp
    ultimately show ?thesis by blast
  qed
qed

lemma file_after_appends:
  "file_after (map Appended recs) (Some ls) = Some (ls @ map RecordLine recs)"
  by (induction recs arbitrary: ls) simp_all

lemma down_always_fails: "always_fails down"
  by (simp add: always_fails_def down_def)

text \<open>
  Claim C4. When every request to the service raises, and the output file is absent or
  starts with its header (as the sink writes it), a run of \<^verbatim>\<open>main\<close> on any input
  table returns normally. For every row that is not skipped (a row with content whose
  identifier is not yet processed) it appends exactly one record, the record without
  event fields whose summary holds the error text, in the order of the rows, and adds
  the row's identifier to \<^verbatim>\<open>processed_ids\<close>. Whatever the service and the parser
  do, the two client functions return a value: they raise nothing.
\<close>

theorem main_completes_when_service_fails:
  assumes "always_fails create"
    and "out_file w = None \<or> (\<exists>rest. out_file w = Some (HeaderLine # rest))"
  shows "(\<exists>w'. main create loads read_as (Some rows) w = (Inr (), w') \<and>
            list_all2 is_error_sentinel (to_process (ids_in_file read_as (out_file w)) rows)
               (appended (new_effects w w')) \<and>
            added (new_effects w w') = map news_id_of (to_process (ids_in_file read_as (out_file w)) rows) \<and>
            out_file w' = Some ((case out_file w of None \<Rightarrow> [HeaderLine] | Some ls \<Rightarrow> ls)
                                  @ map RecordLine (appended (new_effects w w')))) \<and>
         (\<exists>v. fst (get_cameo_events_with_llm create2 loads2 t w2) = Inr v) \<and>
         (\<exists>s. fst (get_summary_with_llm create2 t w2) = Inr s)"
proof (intro conjI)
  let ?w1 = "ensure_output_csv w"
  let ?P = "ids_in_file read_as (out_file w)"
  let ?old = "case out_file w of None \<Rightarrow> [HeaderLine] | Some ls \<Rightarrow> ls"
  from assms(2) obtain rest where f1: "out_file ?w1 = Some (HeaderLine # rest)"
    and old: "?old = HeaderLine # rest"
    by (auto simp: ensure_output_csv_simps)
  from main_loop_all_fail[OF assms(1), of loads rows ?P ?w1] obtain new P' w' where
    ml: "main_loop create loads rows ?P ?w1 = (Inr (), P', w')"
    and h: "trace w' = trace ?w1 @ new"
       "list_all2 is_error_sentinel (to_process ?P rows) (appended new)"
       "added new = map news_id_of (to_process ?P rows)"
       "out_file w' = file_after (map Appended (appended new)) (out_file ?w1)" by blast
  have m: "main create loads read_as (Some rows) w = (Inr (), w')"
    using f1 ml by (simp add: main_unfold)
  have "new_effects w w' = (if out_file w = None then [Created] else []) @ new"
    by (rule new_effects_eq) (use h(1) in \<open>simp add: ensure_output_csv_simps\<close>)
  then have ne: "appended (new_effects w w') = appended new" "added (new_effects w w') = added new"
    by simp_all
  have "out_file w' = Some (?old @ map RecordLine (appended new))"
    using h(4) f1 old by (simp add: file_after_appends)
  with m h(2,3) ne
  show "\<exists>w'. main create loads read_as (Some rows) w = (Inr (), w') \<and>
            list_all2 is_error_sentinel (to_process ?P rows) (appended (new_effects w w')) \<and>
            added (new_effects w w') = map news_id_of (to_process ?P rows) \<and>
            out_file w' = Some (?old @ map RecordLine (appended (new_effects w w')))"
    by simp
next
  obtain r w' where "get_cameo_events_with_llm create2 loads2 t w2 = (r, w')"
    by (cases "get_cameo_events_with_llm create2 loads2 t w2")
  from get_cameo_events_frame[OF this] this
  show "\<exists>v. fst (get_cameo_events_with_llm create2 loads2 t w2) = Inr v" by auto
next
  obtain r w' where "get_summary_with_llm create2 t w2 = (r, w')"
    by (cases "get_summary_with_llm create2 t w2")
  from get_summary_frame[OF this] this
  show "\<exists>s. fst (get_summary_with_llm create2 t w2) = Inr s" by auto
qed

theorem main_completes_when_service_fails_witness:
  "(\<exists>w'. main down toy_loads sample_reader (Some [row_A, row_B]) first_start = (Inr (), w') \<and>
         list_all2 is_error_sentinel [row_A, row_B] (appended (new_effects first_start w')) \<and>
         added (new_effects first_start w') = [''A'', ''B''] \<and>
         out_file w' = Some (HeaderLine # map RecordLine (appended (new_effects first_start w')))) \<and>
   (\<exists>v. fst (get_cameo_events_with_llm down toy_loads ''quiet day'' first_start) = Inr v) \<and>
   (\<exists>s. fst (get_summary_with_llm down ''quiet day'' first_start) = Inr s)"
proof -
  have f: "out_file first_start = None \<or> (\<exists>rest. out_file first_start = Some (HeaderLine # rest))"
    by (simp add: first_start_def)
  have tp: "to_process (ids_in_file sample_reader (out_file first_start)) [row_A, row_B] = [row_A, row_B]"
    by (simp add: first_start_def ids_in_file_def toy_contents toy_ids)
  from main_completes_when_service_fails [where create = down and loads = toy_loads
      and read_as = sample_reader and rows = "[row_A, row_B]" and w = first_start
      and ?create2.0 = down and ?loads2.0 = toy_loads and t = "''quiet day''"
      and ?w2.0 = first_start, OF down_always_fails f]
  show ?thesis
    unfolding tp by (simp add: first_start_def toy_ids)
qed


section \<open>Rows without content (claim C9)\<close>

lemma main_loop_drop_empty:
  "main_loop create loads (filter (\<lambda>row. content_of row \<noteq> []) rows) P w =
   main_loop create loads rows P w"
proof (induction rows arbitrary: P w)
  case Nil
  show ?case by simp
next
  case (Cons row rows)
  show ?case
  proof (cases "content_of row = []")
    case True
    then have "loop_body create loads row P w = (Inr (), P, w)"
      by (simp add: loop_body_skip)
    with True Cons.IH show ?thesis by simp
  next
    case False
    obtain r1 P1 w1 where lb: "loop_body create loads row P w = (r1, P1, w1)"
      by (cases "loop_body create loads row P w") auto
    with False Cons.IH show ?thesis by (cases r1) simp_all
  qed
qed

lemma missing_content: "map_of row CONTENT_COLUMN = None \<Longrightarrow> content_of row = []"
  by (simp add: content_of_def row_get_def strip_def)

lemma get_summary_trace:
  "get_summary_with_llm create t w = (r, w') \<Longrightarrow> \<exists>ext. trace w' = trace w @ ext"
  using get_summary_frame by blast

lemma write_events_trace:
  "write_events row i s evs w = (r, w') \<Longrightarrow> \<exists>ext. trace w' = trace w @ ext"
  using write_events_effects by blast

lemma loop_body_first_request:
  assumes lb: "loop_body create loads row P w = (res, P', w')"
    and go: "content_of row \<noteq> []" "news_id_of row \<notin> P"
  shows "\<exists>rest. trace w' = trace w @ Requested \<lparr>task = CameoEvents, texts = [content_of row]\<rparr> # rest"
proof -
  let ?c = "content_of row" and ?i = "news_id_of row"
  let ?q = "\<lparr>task = CameoEvents, texts = [?c]\<rparr>"
  obtain r1 w1 where c1: "get_cameo_events_with_llm create loads ?c w = (r1, w1)"
    by (cases "get_cameo_events_with_llm create loads ?c w")
  from get_cameo_events_frame[OF c1] obtain cameo_data n1 where
    r1: "r1 = Inr cameo_data" and n1: "0 < n1"
    and t1: "trace w1 = trace w @ replicate n1 (Requested ?q)"
    by blast
  from n1 obtain m where "n1 = Suc m" by (cases n1) auto
  with t1 have t1': "trace w1 = trace w @ Requested ?q # replicate m (Requested ?q)" by simp
  obtain r2 w2 where c2: "get_summary_with_llm create ?c w1 = (r2, w2)"
    by (cases "get_summary_with_llm create ?c w1")
  from get_summary_frame[OF c2] obtain summ where r2: "r2 = Inr summ" by blast
  from get_summary_trace[OF c2] obtain e2 where t2: "trace w2 = trace w1 @ e2" by blast
  have "\<exists>ext. trace w' = trace w2 @ ext"
    using lb go c1 c2 r1 r2
    by (auto simp: loop_body_def Let_def content_of_def[symmetric] news_id_of_def[symmetric]
        split: sum.splits if_splits prod.splits dest!: write_events_trace)
  then obtain e3 where "trace w' = trace w2 @ e3" by blast
  with t1' t2 have "trace w' = trace w @ Requested ?q # (replicate m (Requested ?q) @ e2 @ e3)"
    by simp
  then show ?thesis by blast
qed

text \<open>
  A row whose content, as the loop computes it (the text of the cell, stripped), is
  empty goes through the loop without any effect: no request, no record, and
  \<^verbatim>\<open>processed_ids\<close> as it was, so the next run meets the row again. This is the
  case of a cell made of whitespace only and of a table that has no content column
  (\<^verbatim>\<open>row.get\<close> gives the empty default). A run on a table is the run on the table
  without such rows. In contrast, a row with content and a new identifier, all of whose
  requests fail, does get one record (the error record) and its identifier is added.
\<close>

lemma empty_content_rows_are_skipped:
  "(map_of row CONTENT_COLUMN = None \<longrightarrow> content_of row = []) \<and>
   (content_of row = [] \<longrightarrow> loop_body create loads row P w = (Inr (), P, w)) \<and>
   main create loads read_as (Some rows) w =
     main create loads read_as (Some (filter (\<lambda>row. content_of row \<noteq> []) rows)) w \<and>
   (content_of row \<noteq> [] \<and> news_id_of row \<notin> P \<and> always_fails create \<longrightarrow>
      (\<exists>w' r. loop_body create loads row P w = (Inr (), insert (news_id_of row) P, w') \<and>
              appended (new_effects w w') = [r] \<and> is_error_sentinel row r \<and>
              added (new_effects w w') = [news_id_of row]))"
proof (intro conjI impI)
  assume "map_of row CONTENT_COLUMN = None"
  then show "content_of row = []" by (rule missing_content)
next
  assume "content_of row = []"
  then show "loop_body create loads row P w = (Inr (), P, w)" by (simp add: loop_body_skip)
next
  show "main create loads read_as (Some rows) w =
     main create loads read_as (Some (filter (\<lambda>row. content_of row \<noteq> []) rows)) w"
    by (simp only: main_unfold main_loop_drop_empty)
next
  assume a: "content_of row \<noteq> [] \<and> news_id_of row \<notin> P \<and> always_fails create"
  then have af: "always_fails create" and go: "content_of row \<noteq> []" "news_id_of row \<notin> P"
    by auto
  let ?i = "news_id_of row"
  from loop_body_all_fail[OF af go, of loads w] obtain e reqs w' where
    lb: "loop_body create loads row P w = (Inr (), insert ?i P, w')"
    and t: "trace w' = trace w @ map Requested reqs @
                        [Appended (blank_record row ?i (error_summary e)), Added ?i]" by blast
  have [simp]: "appended (map Requested reqs) = []" "added (map Requested reqs) = []"
    by (induction reqs) simp_all
  have "new_effects w w' = map Requested reqs @
        [Appended (blank_record row ?i (error_summary e)), Added ?i]"
    using t by (rule new_effects_eq)
  then have "appended (new_effects w w') = [blank_record row ?i (error_summary e)]"
      "added (new_effects w w') = [?i]" by simp_all
  with lb blank_error_sentinel[of row e]
  show "\<exists>w' r. loop_body create loads row P w = (Inr (), insert ?i P, w') \<and>
              appended (new_effects w w') = [r] \<and> is_error_sentinel row r \<and>
              added (new_effects w w') = [?i]" by blast
qed

lemma blank_contents: "content_of row_blank = []" "map_of row_no_content CONTENT_COLUMN = None"
  by (simp_all add: content_of_def row_blank_def row_no_content_def row_get_def
      CONTENT_COLUMN_def strip_def is_space_def)

text \<open>
  Claim C9 fails for the row it names first, the row whose content field is empty in
  the input file. \<^verbatim>\<open>pd.read_csv\<close> reads the empty field as NaN, and
  \<^verbatim>\<open>str\<close> of NaN is the text \<^verbatim>\<open>nan\<close>, which is not empty: the test
  \<^verbatim>\<open>if not content\<close> (with its message \<^verbatim>\<open>Empty content\<close>) lets the row
  through. The loop sends the request for the events of the text \<^verbatim>\<open>nan\<close>,
  appends a record for the row and adds its identifier to \<^verbatim>\<open>processed_ids\<close>
  (here with a service that is down, so the record is the error record).
\<close>

theorem nan_content_is_classified:
  "map_of row_nan CONTENT_COLUMN = Some CNaN \<and>
   content_of row_nan = ''nan'' \<and>
   (\<exists>w' r rest.
      loop_body down toy_loads row_nan {} first_start = (Inr (), {''E''}, w') \<and>
      requested (new_effects first_start w') = \<lparr>task = CameoEvents, texts = [''nan'']\<rparr> # rest \<and>
      appended (new_effects first_start w') = [r] \<and> NewsID r = ''E'' \<and>
      added (new_effects first_start w') = [''E''])"
proof -
  have go: "content_of row_nan \<noteq> []" "news_id_of row_nan \<notin> {}"
    by (simp_all add: toy_contents)
  from loop_body_all_fail[OF down_always_fails go, of toy_loads first_start] obtain e reqs w' where
    lb: "loop_body down toy_loads row_nan {} first_start = (Inr (), insert (news_id_of row_nan) {}, w')"
    and t: "trace w' = trace first_start @ map Requested reqs @
              [Appended (blank_record row_nan (news_id_of row_nan) (error_summary e)),
               Added (news_id_of row_nan)]" by blast
  from loop_body_first_request[OF lb go] obtain rest where
    t2: "trace w' = trace first_start @
           Requested \<lparr>task = CameoEvents, texts = [content_of row_nan]\<rparr> # rest" by blast
  have [simp]: "appended (map Requested reqs) = []" "added (map Requested reqs) = []"
    by (induction reqs) simp_all
  from new_effects_eq[OF t]
  have ap: "appended (new_effects first_start w') =
              [blank_record row_nan (news_id_of row_nan) (error_summary e)]"
    and ad: "added (new_effects first_start w') = [news_id_of row_nan]" by simp_all
  from new_effects_eq[OF t2]
  have rq: "requested (new_effects first_start w') =
              \<lparr>task = CameoEvents, texts = [content_of row_nan]\<rparr> # requested rest" by simp
  have id: "NewsID (blank_record row_nan (news_id_of row_nan) (error_summary e)) = ''E''"
    by (simp add: blank_record_def toy_ids)
  have "\<exists>w' r rest.
      loop_body down toy_loads row_nan {} first_start = (Inr (), {''E''}, w') \<and>
      requested (new_effects first_start w') = \<lparr>task = CameoEvents, texts = [''nan'']\<rparr> # rest \<and>
      appended (new_effects first_start w') = [r] \<and> NewsID r = ''E'' \<and>
      added (new_effects first_start w') = [''E'']"
    using lb rq ap ad id unfolding toy_ids toy_contents by blast
  moreover have "map_of row_nan CONTENT_COLUMN = Some CNaN"
    by (simp add: row_nan_def CONTENT_COLUMN_def)
  ultimately show ?thesis by (simp add: toy_contents)
qed


section \<open>Fatal errors before the loop (claim C8)\<close>

text \<open>
  Claim C8. When the credential is missing (the variable unset or empty) the script
  raises \<^verbatim>\<open>ValueError\<close> before \<^verbatim>\<open>main\<close> runs; when the input file is missing,
  \<^verbatim>\<open>main\<close> raises \<^verbatim>\<open>FileNotFoundError\<close> before it touches the output file.
  In both cases the world is returned as it was: no request has been sent, the output
  file has been neither created nor changed, and nothing has been logged.
\<close>

theorem fatal_errors_write_nothing:
  "(api_key = None \<or> api_key = Some [] \<longrightarrow>
      script api_key create loads read_as data_csv w =
        (Inl (ValueError ''OPENAI_API_KEY environment variable missing.''), w)) \<and>
   (data_csv = None \<longrightarrow> (\<exists>e. script api_key create loads read_as data_csv w = (Inl e, w))) \<and>
   (data_csv = None \<longrightarrow>
      main create loads read_as data_csv w = (Inl (FileNotFoundError ''Missing CSV: Dunya_Tur2.csv''), w))"
  by (auto simp: script_def main_def)

theorem fatal_errors_write_nothing_witness:
  "script None down toy_loads sample_reader (Some [row_A]) first_start =
     (Inl (ValueError ''OPENAI_API_KEY environment variable missing.''), first_start) \<and>
   script (Some '''') down toy_loads sample_reader (Some [row_A]) first_start =
     (Inl (ValueError ''OPENAI_API_KEY environment variable missing.''), first_start) \<and>
   (\<exists>e. script (Some ''sk-key'') down toy_loads sample_reader None first_start = (Inl e, first_start)) \<and>
   main down toy_loads sample_reader None first_start =
     (Inl (FileNotFoundError ''Missing CSV: Dunya_Tur2.csv''), first_start)"
  using fatal_errors_write_nothing [of None down toy_loads sample_reader "Some [row_A]" first_start]
    fatal_errors_write_nothing [of "Some ''''" down toy_loads sample_reader "Some [row_A]" first_start]
    fatal_errors_write_nothing [of "Some ''sk-key''" down toy_loads sample_reader None first_start]
  by simp


section \<open>The scenario of two rows (claim C7)\<close>

text \<open>
  Claim C7. The input table has two rows with content, \<open>row_a\<close> and \<open>row_b\<close>, with
  different identifiers that are not among those the run reads from the output file
  (which is absent or starts with its header). The service answers the four requests at the first attempt; the
  reply for \<open>row_a\<close> parses to a dict with no events, the reply for \<open>row_b\<close> to a
  dict with the two events \<open>e1\<close> and \<open>e2\<close>. Then the run returns normally and appends
  exactly three records, in this order: the record without event fields for \<open>row_a\<close>,
  the record of \<open>e1\<close> and the record of \<open>e2\<close> for \<open>row_b\<close>; the two records of
  \<open>row_b\<close> have the same identifier, source, date, title and summary.
\<close>

theorem two_row_scenario:
  assumes wf: "out_file w = None \<or> (\<exists>rest. out_file w = Some (HeaderLine # rest))"
    and new_ids: "news_id_of row_a \<notin> ids_in_file read_as (out_file w)"
      "news_id_of row_b \<notin> ids_in_file read_as (out_file w)" "news_id_of row_a \<noteq> news_id_of row_b"
    and contents: "content_of row_a \<noteq> []" "content_of row_b \<noteq> []"
    and ev_a: "create \<lparr>task = CameoEvents, texts = [content_of row_a]\<rparr> (remote w) = (Inr (Some ta), r1)"
    and su_a: "create \<lparr>task = Summary, texts = [content_of row_a]\<rparr> r1 = (Inr (Some sa), r2)"
    and ev_b: "create \<lparr>task = CameoEvents, texts = [content_of row_b]\<rparr> r2 = (Inr (Some tb), r3)"
    and su_b: "create \<lparr>task = Summary, texts = [content_of row_b]\<rparr> r3 = (Inr (Some sb), r4)"
    and lo_a: "loads ta = Inr (PDict da)" "\<not> truthy (dict_get da ''events'' (PList []))"
    and lo_b: "loads tb = Inr (PDict db)"
      "dict_get db ''events'' (PList []) = PList [PDict e1, PDict e2]"
  shows "\<exists>w' b1 b2.
           main create loads read_as (Some [row_a, row_b]) w = (Inr (), w') \<and>
           appended (new_effects w w') =
             [blank_record row_a (news_id_of row_a) (strip sa), b1, b2] \<and>
           out_file w' =
             Some ((case out_file w of None \<Rightarrow> [HeaderLine] | Some ls \<Rightarrow> ls) @
                   [RecordLine (blank_record row_a (news_id_of row_a) (strip sa)),
                    RecordLine b1, RecordLine b2]) \<and>
           event_record row_b (news_id_of row_b) (strip sb) (PDict e1) = Inr b1 \<and>
           event_record row_b (news_id_of row_b) (strip sb) (PDict e2) = Inr b2 \<and>
           NewsID b1 = news_id_of row_b \<and> NewsID b2 = news_id_of row_b \<and>
           Source b1 = Source b2 \<and> Date b1 = Date b2 \<and> Title b1 = Title b2 \<and>
           summary b1 = strip sb \<and> summary b2 = strip sb"
proof -
  let ?w1 = "ensure_output_csv w"
  let ?P = "ids_in_file read_as (out_file w)"
  let ?ia = "news_id_of row_a" and ?ib = "news_id_of row_b"
  let ?old = "case out_file w of None \<Rightarrow> [HeaderLine] | Some ls \<Rightarrow> ls"
  let ?ra = "blank_record row_a ?ia (strip sa)"
  from wf obtain rest where f1: "out_file ?w1 = Some (HeaderLine # rest)"
    and old: "?old = HeaderLine # rest"
    by (auto simp: ensure_output_csv_simps)
  obtain b1 where b1: "event_record row_b ?ib (strip sb) (PDict e1) = Inr b1" by simp
  obtain b2 where b2: "event_record row_b ?ib (strip sb) (PDict e2) = Inr b2" by simp
  have ev_a': "create \<lparr>task = CameoEvents, texts = [content_of row_a]\<rparr> (remote ?w1) = (Inr (Some ta), r1)"
    using ev_a by simp
  note la = loop_body_no_events[where create = create and loads = loads and w = ?w1,
      OF contents(1) new_ids(1) ev_a' su_a lo_a]
  let ?w2 = "?w1\<lparr>remote := r2,
              out_file := apply_effect (out_file ?w1) (Appended ?ra),
              trace := trace ?w1 @
                 [Requested \<lparr>task = CameoEvents, texts = [content_of row_a]\<rparr>,
                  Requested \<lparr>task = Summary, texts = [content_of row_a]\<rparr>,
                  Appended ?ra, Added ?ia]\<rparr>"
  have nb: "?ib \<notin> insert ?ia ?P" using new_ids by auto
  have ev_b': "create \<lparr>task = CameoEvents, texts = [content_of row_b]\<rparr> (remote ?w2) = (Inr (Some tb), r3)"
    using ev_b by simp
  note lb = loop_body_two_events[where create = create and loads = loads and w = ?w2,
      OF contents(2) nb ev_b' su_b lo_b b1 b2]
  let ?w3 = "?w2\<lparr>remote := r4,
              out_file := apply_effect (apply_effect (out_file ?w2) (Appended b1)) (Appended b2),
              trace := trace ?w2 @
                 [Requested \<lparr>task = CameoEvents, texts = [content_of row_b]\<rparr>,
                  Requested \<lparr>task = Summary, texts = [content_of row_b]\<rparr>,
                  Appended b1, Appended b2, Added ?ib]\<rparr>"
  have ml: "main_loop create loads [row_a, row_b] ?P ?w1 = (Inr (), insert ?ib (insert ?ia ?P), ?w3)"
    by (simp add: la lb del: apply_effect.simps)
  have m: "main create loads read_as (Some [row_a, row_b]) w = (Inr (), ?w3)"
    using f1 ml by (simp add: main_unfold del: apply_effect.simps)
  have tr: "trace ?w3 = trace w @ ((if out_file w = None then [Created] else []) @
                 [Requested \<lparr>task = CameoEvents, texts = [content_of row_a]\<rparr>,
                  Requested \<lparr>task = Summary, texts = [content_of row_a]\<rparr>,
                  Appended ?ra, Added ?ia,
                  Requested \<lparr>task = CameoEvents, texts = [content_of row_b]\<rparr>,
                  Requested \<lparr>task = Summary, texts = [content_of row_b]\<rparr>,
                  Appended b1, Appended b2, Added ?ib])"
    by (simp add: ensure_output_csv_simps)
  have ap: "appended (new_effects w ?w3) = [?ra, b1, b2]"
    unfolding new_effects_eq[OF tr] by simp
  have fo: "out_file ?w3 = Some (?old @ [RecordLine ?ra, RecordLine b1, RecordLine b2])"
    using f1 old by simp
  have eq: "NewsID b1 = ?ib" "NewsID b2 = ?ib" "Source b1 = Source b2" "Date b1 = Date b2"
    "Title b1 = Title b2" "summary b1 = strip sb" "summary b2 = strip sb"
    using b1 b2 by auto
  from m ap fo b1 b2 eq show ?thesis by blast
qed


theorem two_row_scenario_witness:
  "\<exists>w' b1 b2.
     main toy_service toy_loads sample_reader (Some [row_A, row_B]) empty_world = (Inr (), w') \<and>
     appended (new_effects empty_world w') = [blank_record row_A ''A'' ''a summary'', b1, b2] \<and>
     out_file w' = Some [HeaderLine, RecordLine (blank_record row_A ''A'' ''a summary''),
                         RecordLine b1, RecordLine b2] \<and>
     NewsID b1 = ''B'' \<and> NewsID b2 = ''B'' \<and> Source b1 = Source b2 \<and> Date b1 = Date b2 \<and>
     Title b1 = Title b2 \<and> summary b1 = ''a summary'' \<and> summary b2 = ''a summary'' \<and>
     cameo_code b1 = PStr ''042'' \<and> cameo_code b2 = PStr ''112''"
proof -
  let ?e1 = "[(''event_order'', PInt 1), (''cameo_code'', PStr ''042'')]"
  let ?e2 = "[(''event_order'', PInt 2), (''cameo_code'', PStr ''112'')]"
  have st: "strip '' a summary '' = ''a summary''" by (simp add: strip_def is_space_def)
  have h1: "out_file empty_world = None \<or> (\<exists>rest. out_file empty_world = Some (HeaderLine # rest))"
    by (simp add: empty_world_def)
  have h2: "news_id_of row_A \<notin> ids_in_file sample_reader (out_file empty_world)"
    "news_id_of row_B \<notin> ids_in_file sample_reader (out_file empty_world)" "news_id_of row_A \<noteq> news_id_of row_B"
    by (simp_all add: empty_world_def ids_in_file_def toy_ids)
  have h3: "content_of row_A \<noteq> []" "content_of row_B \<noteq> []" by (simp_all add: toy_contents)
  have h4: "toy_service \<lparr>task = CameoEvents, texts = [content_of row_A]\<rparr> (remote empty_world)
              = (Inr (Some ''none''), ())"
    "toy_service \<lparr>task = Summary, texts = [content_of row_A]\<rparr> () = (Inr (Some '' a summary ''), ())"
    "toy_service \<lparr>task = CameoEvents, texts = [content_of row_B]\<rparr> () = (Inr (Some ''two''), ())"
    "toy_service \<lparr>task = Summary, texts = [content_of row_B]\<rparr> () = (Inr (Some '' a summary ''), ())"
    by (simp_all add: toy_service_def toy_contents)
  have h5: "toy_loads ''none'' = Inr (PDict [(''events'', PList [])])"
    "\<not> truthy (dict_get [(''events'', PList [])] ''events'' (PList []))"
    "toy_loads ''two'' = Inr (PDict [(''events'', PList [PDict ?e1, PDict ?e2])])"
    "dict_get [(''events'', PList [PDict ?e1, PDict ?e2])] ''events'' (PList [])
       = PList [PDict ?e1, PDict ?e2]"
    by (simp_all add: toy_loads_def dict_get_def)
  from two_row_scenario [where create = toy_service and loads = toy_loads and w = empty_world
      and read_as = sample_reader,
      OF h1 h2 h3 h4 h5]
  obtain w' b1 b2 where
    r: "main toy_service toy_loads sample_reader (Some [row_A, row_B]) empty_world = (Inr (), w')"
       "appended (new_effects empty_world w') =
             [blank_record row_A (news_id_of row_A) (strip '' a summary ''), b1, b2]"
       "out_file w' =
             Some ((case out_file empty_world of None \<Rightarrow> [HeaderLine] | Some ls \<Rightarrow> ls) @
                   [RecordLine (blank_record row_A (news_id_of row_A) (strip '' a summary '')),
                    RecordLine b1, RecordLine b2])"
       "event_record row_B (news_id_of row_B) (strip '' a summary '') (PDict ?e1) = Inr b1"
       "event_record row_B (news_id_of row_B) (strip '' a summary '') (PDict ?e2) = Inr b2"
    by blast
  from r(4,5) have c: "NewsID b1 = ''B''" "NewsID b2 = ''B''" "Source b1 = Source b2"
    "Date b1 = Date b2" "Title b1 = Title b2" "summary b1 = ''a summary''"
    "summary b2 = ''a summary''" "cameo_code b1 = PStr ''042''" "cameo_code b2 = PStr ''112''"
    by (auto simp: toy_ids st dict_get_def)
  from r(2,3) have d: "appended (new_effects empty_world w') =
        [blank_record row_A ''A'' ''a summary'', b1, b2]"
    "out_file w' = Some [HeaderLine, RecordLine (blank_record row_A ''A'' ''a summary''),
                         RecordLine b1, RecordLine b2]"
    by (simp_all add: toy_ids st empty_world_def)
  from r(1) c d show ?thesis by blast
qed


section \<open>The header line (claim C6)\<close>

lemma header_count_simps [simp]:
  "header_count None = 0"
  "header_count (Some (HeaderLine # ls)) = Suc (header_count (Some ls))"
  "header_count (Some (RecordLine r # ls)) = header_count (Some ls)"
  "header_count (Some []) = 0"
  "header_count (Some (xs @ ys)) = header_count (Some xs) + header_count (Some ys)"
  by (simp_all add: header_count_def)

lemma header_count_file_after:
  "list_all (\<lambda>e. \<not> is_file_reset e) new \<Longrightarrow>
     header_count (file_after new (Some ls)) = header_count (Some ls)"
proof (induction new arbitrary: ls)
  case Nil
  show ?case by simp
next
  case (Cons e new)
  then have rest: "list_all (\<lambda>e. \<not> is_file_reset e) new" by simp
  from Cons.prems show ?case
    by (cases e) (simp_all add: Cons.IH[OF rest])
qed

lemma main_header_count:
  "header_count (out_file (snd (main create loads read_as data_csv w))) =
     (if data_csv = None then header_count (out_file w)
      else if out_file w = None then 1 else header_count (out_file w))"
proof (cases data_csv)
  case None
  then show ?thesis by (simp add: main_def)
next
  case (Some rows)
  obtain res w' where m: "main create loads read_as (Some rows) w = (res, w')"
    by (cases "main create loads read_as (Some rows) w")
  from main_effects[OF m] obtain new where
    h: "out_file w' = file_after new (out_file (ensure_output_csv w))"
       "list_all (\<lambda>e. \<not> is_file_reset e) new" by blast
  obtain ls where e: "out_file (ensure_output_csv w) = Some ls"
    by (cases "out_file w") (auto simp: ensure_output_csv_simps)
  have "header_count (out_file w') = header_count (Some ls)"
    using h e header_count_file_after[OF h(2), of ls] by simp
  moreover have "header_count (Some ls) = (if out_file w = None then 1 else header_count (out_file w))"
    using e by (auto simp: ensure_output_csv_simps)
  ultimately show ?thesis using Some m by simp
qed

lemma main_file_exists:
  "out_file (snd (main create loads read_as (Some rows) w)) \<noteq> None"
proof -
  obtain res w' where m: "main create loads read_as (Some rows) w = (res, w')"
    by (cases "main create loads read_as (Some rows) w")
  from main_effects[OF m] obtain new where
    h: "out_file w' = file_after new (out_file (ensure_output_csv w))"
       "list_all (\<lambda>e. \<not> is_file_reset e) new" by blast
  obtain ls where e: "out_file (ensure_output_csv w) = Some ls"
    by (cases "out_file w") (auto simp: ensure_output_csv_simps)
  from file_after_grows[OF h(2), of ls] h(1) e m show ?thesis by auto
qed

lemma main_file_stays:
  "out_file w \<noteq> None \<Longrightarrow> out_file (snd (main create loads read_as data_csv w)) \<noteq> None"
  by (cases data_csv) (simp_all add: main_file_exists, simp add: main_def)

lemma runs_header_count:
  "out_file w = None \<or> header_count (out_file w) = 1 \<Longrightarrow>
     out_file (runs create loads read_as inputs w) = None \<or>
     header_count (out_file (runs create loads read_as inputs w)) = 1"
proof (induction inputs arbitrary: w)
  case Nil
  then show ?case by simp
next
  case (Cons d inputs)
  let ?w1 = "snd (main create loads read_as d w)"
  have "out_file ?w1 = None \<or> header_count (out_file ?w1) = 1"
    using Cons.prems main_header_count[of create loads read_as d w]
    by (cases d) (auto simp: main_def split: if_splits)
  from Cons.IH[OF this] show ?case by simp
qed

lemma runs_file_stays:
  "out_file w \<noteq> None \<Longrightarrow> out_file (runs create loads read_as inputs w) \<noteq> None"
proof (induction inputs arbitrary: w)
  case Nil
  then show ?case by simp
next
  case (Cons d inputs)
  from Cons.IH[OF main_file_stays[OF Cons.prems, of create loads read_as d]] show ?case by simp
qed

lemma runs_file_exists:
  "Some rows \<in> set inputs \<Longrightarrow> out_file (runs create loads read_as inputs w) \<noteq> None"
proof (induction inputs arbitrary: w)
  case Nil
  then show ?case by simp
next
  case (Cons d inputs)
  show ?case
  proof (cases "d = Some rows")
    case True
    from runs_file_stays[OF main_file_exists[of create loads read_as rows w], of create loads read_as inputs] True
    show ?thesis by simp
  next
    case False
    with Cons.prems have "Some rows \<in> set inputs" by simp
    from Cons.IH[OF this] show ?thesis by simp
  qed
qed

text \<open>
  Claim C6. \<^verbatim>\<open>ensure_output_csv\<close> and \<^verbatim>\<open>append_record\<close> write the header
  line exactly when the file does not exist yet, and otherwise leave the number of
  header lines as it is; so does a whole run of \<^verbatim>\<open>main\<close> (which writes nothing
  when the input is missing). Hence, starting without an output file, or with one that
  holds one header line, after any number of runs on any inputs, whatever the service
  answers, the file is absent or holds the header line exactly once; and it does hold it
  exactly once as soon as one of the runs found its input.
\<close>

theorem header_written_once:
  "header_count (out_file (ensure_output_csv w)) =
     (if out_file w = None then 1 else header_count (out_file w)) \<and>
   header_count (out_file (append_record r w)) =
     (if out_file w = None then 1 else header_count (out_file w)) \<and>
   header_count (out_file (snd (main create loads read_as data_csv w))) =
     (if data_csv = None then header_count (out_file w)
      else if out_file w = None then 1 else header_count (out_file w)) \<and>
   (out_file w = None \<or> header_count (out_file w) = 1 \<longrightarrow>
      out_file (runs create loads read_as inputs w) = None \<or>
      header_count (out_file (runs create loads read_as inputs w)) = 1) \<and>
   (out_file w = None \<and> Some rows \<in> set inputs \<longrightarrow>
      header_count (out_file (runs create loads read_as inputs w)) = 1)"
proof (intro conjI impI)
  show "header_count (out_file (ensure_output_csv w)) =
     (if out_file w = None then 1 else header_count (out_file w))"
    by (simp add: ensure_output_csv_simps)
  show "header_count (out_file (append_record r w)) =
     (if out_file w = None then 1 else header_count (out_file w))"
    by (cases "out_file w") simp_all
  show "header_count (out_file (snd (main create loads read_as data_csv w))) =
     (if data_csv = None then header_count (out_file w)
      else if out_file w = None then 1 else header_count (out_file w))"
    by (rule main_header_count)
next
  assume "out_file w = None \<or> header_count (out_file w) = 1"
  then show "out_file (runs create loads read_as inputs w) = None \<or>
      header_count (out_file (runs create loads read_as inputs w)) = 1"
    by (rule runs_header_count)
next
  assume a: "out_file w = None \<and> Some rows \<in> set inputs"
  then have "out_file (runs create loads read_as inputs w) = None \<or>
      header_count (out_file (runs create loads read_as inputs w)) = 1"
    by (intro runs_header_count) simp
  moreover from a have "out_file (runs create loads read_as inputs w) \<noteq> None"
    by (intro runs_file_exists[of rows]) simp
  ultimately show "header_count (out_file (runs create loads read_as inputs w)) = 1" by simp
qed

theorem header_written_once_witness:
  "header_count (out_file (ensure_output_csv empty_world)) = 1 \<and>
   header_count (out_file (ensure_output_csv world_A)) = 1 \<and>
   header_count (out_file (append_record rec_A empty_world)) = 1 \<and>
   header_count (out_file (append_record rec_A world_A)) = 1 \<and>
   header_count (out_file (runs toy_service toy_loads sample_reader
       [Some [row_A], None, Some [row_A, row_B], Some [row_B]] empty_world)) = 1"
proof -
  have e: "out_file empty_world = None" by (simp add: empty_world_def)
  have a: "out_file world_A \<noteq> None" "header_count (out_file world_A) = 1"
    by (simp_all add: world_A_def)
  note c1 = header_written_once [where w = empty_world and r = rec_A and create = toy_service and loads = toy_loads and read_as = sample_reader
      and data_csv = None and rows = "[row_A, row_B]"
      and inputs = "[Some [row_A], None, Some [row_A, row_B], Some [row_B]]"]
  note c2 = header_written_once [where w = world_A and r = rec_A and create = toy_service and loads = toy_loads and read_as = sample_reader
      and data_csv = None and rows = "[row_A, row_B]"
      and inputs = "[]"]
  from c1 e have 1: "header_count (out_file (ensure_output_csv empty_world)) = 1"
    "header_count (out_file (append_record rec_A empty_world)) = 1"
    "header_count (out_file (runs toy_service toy_loads sample_reader
       [Some [row_A], None, Some [row_A, row_B], Some [row_B]] empty_world)) = 1"
    by simp_all
  from c2 a have 2: "header_count (out_file (ensure_output_csv world_A)) = 1"
    "header_count (out_file (append_record rec_A world_A)) = 1"
    by simp_all
  from 1 2 show ?thesis by (intro conjI)
qed


section \<open>Termination in the middle of a row, and the restart (claim C5)\<close>

lemma toy_run_B:
  "main toy_service toy_loads sample_reader (Some [row_B]) empty_world =
     (Inr (), \<lparr>remote = (), out_file = Some [HeaderLine, RecordLine rec_B1, RecordLine rec_B2],
        trace = [Created, Requested \<lparr>task = CameoEvents, texts = [''talks and protest'']\<rparr>,
                 Requested \<lparr>task = Summary, texts = [''talks and protest'']\<rparr>,
                 Appended rec_B1, Appended rec_B2, Added ''B'']\<rparr>)"
proof -
  let ?w1 = "ensure_output_csv empty_world"
  have w1: "?w1 = \<lparr>remote = (), out_file = Some [HeaderLine], trace = [Created]\<rparr>"
    by (simp add: ensure_output_csv_def empty_world_def emit_def)
  have ids: "ids_in_file sample_reader (out_file empty_world) = {}"
    by (simp add: ids_in_file_def empty_world_def)
  have f1: "out_file ?w1 = Some [HeaderLine]" by (simp add: w1)
  have ml: "main_loop toy_service toy_loads [row_B] {} ?w1 =
     (Inr (), {''B''}, \<lparr>remote = (), out_file = Some [HeaderLine, RecordLine rec_B1, RecordLine rec_B2],
        trace = [Created, Requested \<lparr>task = CameoEvents, texts = [''talks and protest'']\<rparr>,
                 Requested \<lparr>task = Summary, texts = [''talks and protest'']\<rparr>,
                 Appended rec_B1, Appended rec_B2, Added ''B'']\<rparr>)"
    unfolding w1 by (simp add: toy_loop_body_B)
  show ?thesis
    by (simp add: main_unfold ids ml f1 del: main_loop.simps)
qed

lemma half_written_ids: "ids_in_file sample_reader (Some [HeaderLine, RecordLine rec_B1]) = {''B''}"
  by (simp add: ids_in_file_def written_id_def rec_B1_def sample_reader_simps)

lemma toy_restart_B:
  "main toy_service toy_loads sample_reader (Some [row_B]) half_written = (Inr (), half_written)"
proof -
  have e: "ensure_output_csv half_written = half_written"
    by (simp add: ensure_output_csv_def half_written_def)
  have f: "out_file half_written = Some [HeaderLine, RecordLine rec_B1]"
    by (simp add: half_written_def)
  have lb: "loop_body toy_service toy_loads row_B {''B''} half_written = (Inr (), {''B''}, half_written)"
    by (rule loop_body_skip) (simp add: toy_ids)
  have ml: "main_loop toy_service toy_loads [row_B] {''B''} half_written = (Inr (), {''B''}, half_written)"
    by (simp add: lb)
  show ?thesis
    by (simp add: main_unfold e f half_written_ids ml del: main_loop.simps)
qed

text \<open>
  Claim C5 fails for a row with two events. Within a run the order is as the claim
  has it: \<^verbatim>\<open>processed_ids.add\<close> comes after the last \<^verbatim>\<open>append_record\<close> of
  the row. But a restart does not start from that set: it reads the identifiers from
  the output file, and the records of a row are appended one at a time. The run on
  \<open>row_B\<close> writes two records. Terminated after four effects (the file created, two
  requests, the first record appended; the identifier not yet added to
  \<^verbatim>\<open>processed_ids\<close>) it leaves the header and the first record. The restart finds
  the identifier \<open>B\<close> in the file and skips the row: it sends no request and writes
  nothing, and the second record is never written.
\<close>

theorem half_written_row_is_dropped:
  "out_file (snd (main toy_service toy_loads sample_reader (Some [row_B]) empty_world)) =
     Some [HeaderLine, RecordLine rec_B1, RecordLine rec_B2] \<and>
   take 4 (new_effects empty_world
      (snd (main toy_service toy_loads sample_reader (Some [row_B]) empty_world))) =
     [Created, Requested \<lparr>task = CameoEvents, texts = [''talks and protest'']\<rparr>,
      Requested \<lparr>task = Summary, texts = [''talks and protest'']\<rparr>, Appended rec_B1] \<and>
   crash_file empty_world
      (snd (main toy_service toy_loads sample_reader (Some [row_B]) empty_world)) 4 =
     Some [HeaderLine, RecordLine rec_B1] \<and>
   out_file half_written = Some [HeaderLine, RecordLine rec_B1] \<and>
   main toy_service toy_loads sample_reader (Some [row_B]) half_written = (Inr (), half_written)"
proof -
  have f: "out_file half_written = Some [HeaderLine, RecordLine rec_B1]"
    by (simp add: half_written_def)
  have t: "take 4 (new_effects empty_world
      (snd (main toy_service toy_loads sample_reader (Some [row_B]) empty_world))) =
     [Created, Requested \<lparr>task = CameoEvents, texts = [''talks and protest'']\<rparr>,
      Requested \<lparr>task = Summary, texts = [''talks and protest'']\<rparr>, Appended rec_B1]"
    by (simp add: toy_run_B new_effects_def empty_world_simps)
  have c: "crash_file empty_world
      (snd (main toy_service toy_loads sample_reader (Some [row_B]) empty_world)) 4 =
     Some [HeaderLine, RecordLine rec_B1]"
    unfolding crash_file_def t by (simp add: empty_world_simps)
  from t c f show ?thesis by (simp add: toy_run_B toy_restart_B)
qed

end
